theory Spec2Isabelle
  imports Complex_Main
begin

section \<open>Floating-point values over exact arithmetic\<close>

text \<open>
  The notebook computes with Python floats and NumPy float64 arrays. The model keeps the
  special values the code relies on (\<open>float('-inf')\<close> is the initial running maximum) and
  computes exactly on the finite ones: \<open>Fin r\<close> is the finite value \<open>r\<close>. Rounding and
  signed zeros are outside the model; the operations follow IEEE-754 on infinities and NaN.
  Of the range of a double the model keeps what changes the course of the softmax
  routines: \<open>math.exp\<close> raises OverflowError, a sum of exponentials that have all
  underflowed is the float 0.0, on which \<open>/\<close> raises ZeroDivisionError, and a sum of
  exponentials too large for a double is inf.
\<close>

datatype pyfloat = NInf | Fin real | PInf | NaN

datatype py_error = AssertionError string | ZeroDivisionError | ValueError | OverflowError

fun fneg :: "pyfloat \<Rightarrow> pyfloat" where
  "fneg NInf = PInf"
| "fneg (Fin a) = Fin (- a)"
| "fneg PInf = NInf"
| "fneg NaN = NaN"

fun fadd :: "pyfloat \<Rightarrow> pyfloat \<Rightarrow> pyfloat" where
  "fadd NaN y = NaN"
| "fadd x NaN = NaN"
| "fadd (Fin a) (Fin b) = Fin (a + b)"
| "fadd PInf NInf = NaN"
| "fadd NInf PInf = NaN"
| "fadd PInf y = PInf"
| "fadd x PInf = PInf"
| "fadd NInf y = NInf"
| "fadd x NInf = NInf"

definition fsub :: "pyfloat \<Rightarrow> pyfloat \<Rightarrow> pyfloat" where
  "fsub x y = fadd x (fneg y)"

fun fmul :: "pyfloat \<Rightarrow> pyfloat \<Rightarrow> pyfloat" where
  "fmul NaN y = NaN"
| "fmul x NaN = NaN"
| "fmul (Fin a) (Fin b) = Fin (a * b)"
| "fmul (Fin a) PInf = (if a = 0 then NaN else if 0 < a then PInf else NInf)"
| "fmul (Fin a) NInf = (if a = 0 then NaN else if 0 < a then NInf else PInf)"
| "fmul PInf (Fin b) = (if b = 0 then NaN else if 0 < b then PInf else NInf)"
| "fmul NInf (Fin b) = (if b = 0 then NaN else if 0 < b then NInf else PInf)"
| "fmul PInf PInf = PInf"
| "fmul PInf NInf = NInf"
| "fmul NInf PInf = NInf"
| "fmul NInf NInf = PInf"

text \<open>NumPy's \<open>/\<close> on float64: a zero divisor gives an infinity or NaN, no exception.\<close>

fun fdiv :: "pyfloat \<Rightarrow> pyfloat \<Rightarrow> pyfloat" where
  "fdiv NaN y = NaN"
| "fdiv x NaN = NaN"
| "fdiv (Fin a) (Fin b) =
     (if b = 0 then (if a = 0 then NaN else if 0 < a then PInf else NInf) else Fin (a / b))"
| "fdiv (Fin a) PInf = Fin 0"
| "fdiv (Fin a) NInf = Fin 0"
| "fdiv PInf (Fin b) = (if 0 \<le> b then PInf else NInf)"
| "fdiv NInf (Fin b) = (if 0 \<le> b then NInf else PInf)"
| "fdiv PInf PInf = NaN"
| "fdiv PInf NInf = NaN"
| "fdiv NInf PInf = NaN"
| "fdiv NInf NInf = NaN"


text \<open>\<open>np.exp\<close> and the values of \<open>math.exp\<close>: \<open>exp(-inf) = 0\<close>, \<open>exp(inf) = inf\<close>.\<close>

fun fexp :: "pyfloat \<Rightarrow> pyfloat" where
  "fexp NInf = Fin 0"
| "fexp (Fin a) = Fin (exp a)"
| "fexp PInf = PInf"
| "fexp NaN = NaN"







text \<open>The comparison \<open>x > y\<close>; every comparison with NaN is false.\<close>

fun fgt :: "pyfloat \<Rightarrow> pyfloat \<Rightarrow> bool" where
  "fgt NaN y = False"
| "fgt x NaN = False"
| "fgt (Fin a) (Fin b) = (b < a)"
| "fgt PInf PInf = False"
| "fgt PInf y = True"
| "fgt x PInf = False"
| "fgt NInf y = False"
| "fgt x NInf = True"

text \<open>\<open>x <= y\<close>, used to state bounds on the arguments of \<open>exp\<close>.\<close>

fun fle :: "pyfloat \<Rightarrow> pyfloat \<Rightarrow> bool" where
  "fle NaN y = False"
| "fle x NaN = False"
| "fle (Fin a) (Fin b) = (a \<le> b)"
| "fle NInf y = True"
| "fle x PInf = True"
| "fle PInf y = False"
| "fle x NInf = False"

section \<open>The three softmax routines\<close>

definition bind_err :: "py_error + 'a \<Rightarrow> ('a \<Rightarrow> py_error + 'b) \<Rightarrow> py_error + 'b" where
  "bind_err x f = (case x of Inl e \<Rightarrow> Inl e | Inr y \<Rightarrow> f y)"








section \<open>NumPy arrays of two dimensions\<close>

text \<open>
  A 2-D float64 array carries its shape and its elements, row by row. An array is well
  formed when the rows agree with the shape; every operation below returns a well-formed
  array.
\<close>

record ndarray =
  shape0 :: nat
  shape1 :: nat
  data :: "pyfloat list list"

definition wf_array :: "ndarray \<Rightarrow> bool" where
  "wf_array a = (length (data a) = shape0 a \<and> list_all (\<lambda>r. length r = shape1 a) (data a))"

text \<open>The inputs of the claims are real-valued: no infinity and no NaN among the elements.\<close>

fun is_Fin :: "pyfloat \<Rightarrow> bool" where
  "is_Fin (Fin a) = True"
| "is_Fin x = False"

definition real_valued :: "ndarray \<Rightarrow> bool" where
  "real_valued a = list_all (list_all is_Fin) (data a)"

definition item :: "ndarray \<Rightarrow> nat \<Rightarrow> nat \<Rightarrow> pyfloat" where
  "item a i j = data a ! i ! j"

definition tabulate2 :: "nat \<Rightarrow> nat \<Rightarrow> (nat \<Rightarrow> nat \<Rightarrow> pyfloat) \<Rightarrow> ndarray" where
  "tabulate2 r c f =
     \<lparr>shape0 = r, shape1 = c, data = map (\<lambda>i. map (\<lambda>j. f i j) [0..<c]) [0..<r]\<rparr>"

definition np_zeros :: "nat \<Rightarrow> nat \<Rightarrow> ndarray" where
  "np_zeros r c = tabulate2 r c (\<lambda>i j. Fin 0)"

definition np_zeros_like :: "ndarray \<Rightarrow> ndarray" where
  "np_zeros_like a = np_zeros (shape0 a) (shape1 a)"

definition np_full :: "nat \<Rightarrow> nat \<Rightarrow> pyfloat \<Rightarrow> ndarray" where
  "np_full r c x = tabulate2 r c (\<lambda>i j. x)"

text \<open>\<open>a[start:stop, :]\<close> for non-negative bounds: both are clipped to the row count.\<close>

definition slice_rows :: "ndarray \<Rightarrow> nat \<Rightarrow> nat \<Rightarrow> ndarray" where
  "slice_rows a start stop =
     (let s = min start (shape0 a); e = min stop (shape0 a)
      in tabulate2 (e - s) (shape1 a) (\<lambda>i j. item a (s + i) j))"

text \<open>\<open>a.T\<close>\<close>

definition transpose_T :: "ndarray \<Rightarrow> ndarray" where
  "transpose_T a = tabulate2 (shape1 a) (shape0 a) (\<lambda>i j. item a j i)"

definition fsum :: "pyfloat list \<Rightarrow> pyfloat" where
  "fsum xs = foldl fadd (Fin 0) xs"

text \<open>\<open>np.matmul(a, b)\<close> and \<open>a @ b\<close>: the inner dimensions must agree.\<close>

definition np_matmul :: "ndarray \<Rightarrow> ndarray \<Rightarrow> py_error + ndarray" where
  "np_matmul a b =
     (if shape1 a \<noteq> shape0 b then Inl ValueError
      else Inr (tabulate2 (shape0 a) (shape1 b)
             (\<lambda>i j. fsum (map (\<lambda>t. fmul (item a i t) (item b t j)) [0..<shape1 a]))))"

text \<open>\<open>np.maximum\<close> on two elements: NaN wins, otherwise the larger.\<close>

definition fmaximum :: "pyfloat \<Rightarrow> pyfloat \<Rightarrow> pyfloat" where
  "fmaximum x y = (if x = NaN \<or> y = NaN then NaN else if fgt x y then x else y)"

text \<open>
  \<open>np.max(a, axis=1, keepdims=True)\<close>: a reduction without identity, it raises ValueError
  when the reduced axis has length 0.
\<close>

definition np_max_axis1 :: "ndarray \<Rightarrow> py_error + ndarray" where
  "np_max_axis1 a =
     (if shape1 a = 0 then Inl ValueError
      else Inr (tabulate2 (shape0 a) 1
             (\<lambda>i j. foldl fmaximum (item a i 0) (map (item a i) [1..<shape1 a]))))"

text \<open>\<open>np.sum(a, axis=1, keepdims=True)\<close>\<close>

definition np_sum_axis1 :: "ndarray \<Rightarrow> ndarray" where
  "np_sum_axis1 a = tabulate2 (shape0 a) 1 (\<lambda>i j. fsum (map (item a i) [0..<shape1 a]))"

definition np_exp :: "ndarray \<Rightarrow> ndarray" where
  "np_exp a = tabulate2 (shape0 a) (shape1 a) (\<lambda>i j. fexp (item a i j))"

text \<open>
  Element-wise binary operations broadcast: two dimensions are compatible when they are
  equal or one of them is 1, and the dimension of length 1 is repeated.
\<close>

definition bdim :: "nat \<Rightarrow> nat \<Rightarrow> nat" where
  "bdim m n = (if m = 1 then n else m)"

definition bidx :: "nat \<Rightarrow> nat \<Rightarrow> nat" where
  "bidx n i = (if n = 1 then 0 else i)"

definition compatible :: "nat \<Rightarrow> nat \<Rightarrow> bool" where
  "compatible m n = (m = n \<or> m = 1 \<or> n = 1)"

definition broadcast :: "(pyfloat \<Rightarrow> pyfloat \<Rightarrow> pyfloat) \<Rightarrow> ndarray \<Rightarrow> ndarray \<Rightarrow> py_error + ndarray" where
  "broadcast f a b =
     (if \<not> (compatible (shape0 a) (shape0 b) \<and> compatible (shape1 a) (shape1 b)) then Inl ValueError
      else Inr (tabulate2 (bdim (shape0 a) (shape0 b)) (bdim (shape1 a) (shape1 b))
             (\<lambda>i j. f (item a (bidx (shape0 a) i) (bidx (shape1 a) j))
                      (item b (bidx (shape0 b) i) (bidx (shape1 b) j)))))"

definition np_add :: "ndarray \<Rightarrow> ndarray \<Rightarrow> py_error + ndarray" where
  "np_add = broadcast fadd"

definition np_sub :: "ndarray \<Rightarrow> ndarray \<Rightarrow> py_error + ndarray" where
  "np_sub = broadcast fsub"

definition np_mul :: "ndarray \<Rightarrow> ndarray \<Rightarrow> py_error + ndarray" where
  "np_mul = broadcast fmul"

definition np_div :: "ndarray \<Rightarrow> ndarray \<Rightarrow> py_error + ndarray" where
  "np_div = broadcast fdiv"

definition np_maximum :: "ndarray \<Rightarrow> ndarray \<Rightarrow> py_error + ndarray" where
  "np_maximum = broadcast fmaximum"

text \<open>\<open>a /= b\<close> writes into \<open>a\<close>: the broadcast result must have the shape of \<open>a\<close>.\<close>

definition np_idiv :: "ndarray \<Rightarrow> ndarray \<Rightarrow> py_error + ndarray" where
  "np_idiv a b =
     bind_err (np_div a b) (\<lambda>c.
       if shape0 c = shape0 a \<and> shape1 c = shape1 a then Inr c else Inl ValueError)"

text \<open>
  \<open>np.concatenate(blocks, axis=0)\<close>: ValueError on an empty list and on blocks whose
  column counts differ.
\<close>

definition np_concatenate :: "ndarray list \<Rightarrow> py_error + ndarray" where
  "np_concatenate blocks =
     (case blocks of
        [] \<Rightarrow> Inl ValueError
      | b # bs \<Rightarrow>
          if list_all (\<lambda>x. shape1 x = shape1 b) bs
          then Inr \<lparr>shape0 = sum_list (map shape0 blocks), shape1 = shape1 b,
                    data = concat (map data blocks)\<rparr>
          else Inl ValueError)"

text \<open>
  \<open>range(0, n, step)\<close> as used for the block starts. A negative step gives the empty
  range; \<open>step = 0\<close> is never reached, the divisibility assertions raise before.
\<close>

definition range0 :: "nat \<Rightarrow> int \<Rightarrow> nat list" where
  "range0 n step =
     (if 0 < step then map (\<lambda>t. t * nat step) [0..<(n + nat step - 1) div nat step] else [])"

section \<open>Flash attention\<close>

text \<open>
  The local variables of one pass through the body of the inner loop, for row block \<open>i\<close>
  and column block \<open>j\<close>. The three arrays handed to \<open>np.exp\<close> are kept as
  \<open>exp_arg_p\<close> (\<open>s_i_j - m_i_j\<close>), \<open>exp_arg_old\<close> (\<open>m_block - m_i_new\<close>) and
  \<open>exp_arg_cur\<close> (\<open>m_i_j - m_i_new\<close>).
\<close>

record tile_locals =
  s_i_j :: ndarray
  m_i_j :: ndarray
  exp_arg_p :: ndarray
  p_i_j :: ndarray
  l_i_j :: ndarray
  m_i_new :: ndarray
  exp_arg_old :: ndarray
  exp_arg_cur :: ndarray
  l_i_new :: ndarray
  current_o_block :: ndarray
  updated_old_o_block :: ndarray
  o_i_new :: ndarray

definition tile_body ::
  "ndarray \<Rightarrow> ndarray \<Rightarrow> ndarray \<Rightarrow> ndarray \<Rightarrow> ndarray \<Rightarrow> ndarray \<Rightarrow> py_error + tile_locals" where
  "tile_body q_block m_block l_block o_block k_block v_block =
     \<comment> \<open>\<open>s_i_j = np.matmul(q_block, k_block.T)\<close>\<close>
     bind_err (np_matmul q_block (transpose_T k_block)) (\<lambda>s_i_j.
     \<comment> \<open>\<open>m_i_j = np.max(s_i_j, axis=1, keepdims=True)\<close>\<close>
     bind_err (np_max_axis1 s_i_j) (\<lambda>m_i_j.
     \<comment> \<open>\<open>p_i_j = np.exp(s_i_j - m_i_j)\<close>\<close>
     bind_err (np_sub s_i_j m_i_j) (\<lambda>arg_p.
     let p_i_j = np_exp arg_p;
     \<comment> \<open>\<open>l_i_j = np.sum(p_i_j, axis=1, keepdims=True)\<close>\<close>
         l_i_j = np_sum_axis1 p_i_j
     in
     \<comment> \<open>\<open>m_i_new = np.maximum(m_block, m_i_j)\<close>\<close>
     bind_err (np_maximum m_block m_i_j) (\<lambda>m_i_new.
     \<comment> \<open>\<open>l_i_new = l_block * np.exp(m_block - m_i_new) + l_i_j * np.exp(m_i_j - m_i_new)\<close>\<close>
     bind_err (np_sub m_block m_i_new) (\<lambda>arg_old.
     bind_err (np_sub m_i_j m_i_new) (\<lambda>arg_cur.
     bind_err (np_mul l_block (np_exp arg_old)) (\<lambda>l_old_scaled.
     bind_err (np_mul l_i_j (np_exp arg_cur)) (\<lambda>l_cur_scaled.
     bind_err (np_add l_old_scaled l_cur_scaled) (\<lambda>l_i_new.
     \<comment> \<open>\<open>current_o_block = np.exp(m_i_j - m_i_new) * p_i_j @ v_block\<close>:
         \<open>*\<close> and \<open>@\<close> have one precedence and associate to the left\<close>
     bind_err (np_mul (np_exp arg_cur) p_i_j) (\<lambda>p_scaled.
     bind_err (np_matmul p_scaled v_block) (\<lambda>current_o_block.
     \<comment> \<open>\<open>updated_old_o_block = l_block * np.exp(m_block - m_i_new) * o_blocks[i]\<close>\<close>
     bind_err (np_mul l_block (np_exp arg_old)) (\<lambda>l_old_scaled2.
     bind_err (np_mul l_old_scaled2 o_block) (\<lambda>updated_old_o_block.
     \<comment> \<open>\<open>o_blocks[i] = (current_o_block + updated_old_o_block) / l_i_new\<close>\<close>
     bind_err (np_add current_o_block updated_old_o_block) (\<lambda>o_sum.
     bind_err (np_div o_sum l_i_new) (\<lambda>o_new.
     Inr \<lparr>s_i_j = s_i_j, m_i_j = m_i_j, exp_arg_p = arg_p, p_i_j = p_i_j, l_i_j = l_i_j,
          m_i_new = m_i_new, exp_arg_old = arg_old, exp_arg_cur = arg_cur, l_i_new = l_i_new,
          current_o_block = current_o_block, updated_old_o_block = updated_old_o_block,
          o_i_new = o_new\<rparr>
     )))))))))))))))"

type_synonym blocks_state = "ndarray list \<times> ndarray list \<times> ndarray list"

text \<open>
  \<open>for i in range(n_q_blocks)\<close>: the state is the three lists \<open>o_blocks\<close>,
  \<open>m_blocks\<close>, \<open>l_blocks\<close>, each updated at index \<open>i\<close>.
\<close>

fun inner_loop ::
  "ndarray list \<Rightarrow> ndarray \<Rightarrow> ndarray \<Rightarrow> nat list \<Rightarrow> blocks_state \<Rightarrow> py_error + blocks_state" where
  "inner_loop q_blocks k_block v_block [] st = Inr st"
| "inner_loop q_blocks k_block v_block (i # is) (o_blocks, m_blocks, l_blocks) =
     (case tile_body (q_blocks ! i) (m_blocks ! i) (l_blocks ! i) (o_blocks ! i) k_block v_block of
        Inl e \<Rightarrow> Inl e
      | Inr t \<Rightarrow>
          inner_loop q_blocks k_block v_block is
            (o_blocks[i := o_i_new t], m_blocks[i := m_i_new t], l_blocks[i := l_i_new t]))"

text \<open>\<open>for j in range(n_k_blocks)\<close>\<close>

fun outer_loop ::
  "ndarray list \<Rightarrow> ndarray list \<Rightarrow> ndarray list \<Rightarrow> nat \<Rightarrow> nat list \<Rightarrow> blocks_state
     \<Rightarrow> py_error + blocks_state" where
  "outer_loop q_blocks k_blocks v_blocks n_q_blocks [] st = Inr st"
| "outer_loop q_blocks k_blocks v_blocks n_q_blocks (j # js) st =
     (case inner_loop q_blocks (k_blocks ! j) (v_blocks ! j) [0..<n_q_blocks] st of
        Inl e \<Rightarrow> Inl e
      | Inr st' \<Rightarrow> outer_loop q_blocks k_blocks v_blocks n_q_blocks js st')"

text \<open>
  The four assertions at the head of \<open>flash_attention\<close>, in the order of the source.
  \<open>x % 0\<close> raises ZeroDivisionError before the comparison is made.
\<close>

definition flash_asserts :: "ndarray \<Rightarrow> ndarray \<Rightarrow> ndarray \<Rightarrow> int \<Rightarrow> int \<Rightarrow> py_error option" where
  "flash_asserts q k v b_r b_c =
     (if b_r = 0 then Some ZeroDivisionError
      else if int (shape0 q) mod b_r \<noteq> 0
        then Some (AssertionError ''the number of rows of q must be divisible by b_r'')
      else if b_c = 0 then Some ZeroDivisionError
      else if int (shape0 k) mod b_c \<noteq> 0
        then Some (AssertionError ''the number of rows of k must be divisible by b_c'')
      else if int (shape0 v) mod b_c \<noteq> 0
        then Some (AssertionError ''the number of rows of v must be divisible by b_c'')
      else if \<not> (shape1 q = shape1 k \<and> shape1 k = shape1 v)
        then Some (AssertionError ''the number of columns of q, k, v must be the same'')
      else None)"

text \<open>
  The initialisation and the two nested loops: the lists of blocks \<open>o_blocks\<close>,
  \<open>m_blocks\<close>, \<open>l_blocks\<close> after the last column block. The array \<open>o\<close> of the source
  is \<open>ob\<close> here.
\<close>

definition flash_loops :: "ndarray \<Rightarrow> ndarray \<Rightarrow> ndarray \<Rightarrow> int \<Rightarrow> int \<Rightarrow> py_error + blocks_state" where
  "flash_loops q k v b_r b_c =
     (let ob = np_zeros_like q;
          N = shape0 q;
          l = np_zeros N 1;
          m = np_full N 1 NInf;
          q_blocks = map (\<lambda>i. slice_rows q i (i + nat b_r)) (range0 N b_r);
          k_blocks = map (\<lambda>i. slice_rows k i (i + nat b_c)) (range0 N b_c);
          v_blocks = map (\<lambda>i. slice_rows v i (i + nat b_c)) (range0 N b_c);
          o_blocks = map (\<lambda>i. slice_rows ob i (i + nat b_r)) (range0 N b_r);
          l_blocks = map (\<lambda>i. slice_rows l i (i + nat b_r)) (range0 N b_r);
          m_blocks = map (\<lambda>i. slice_rows m i (i + nat b_r)) (range0 N b_r);
          n_q_blocks = length q_blocks;
          n_k_blocks = length k_blocks
      in outer_loop q_blocks k_blocks v_blocks n_q_blocks [0..<n_k_blocks]
           (o_blocks, m_blocks, l_blocks))"

definition flash_attention :: "ndarray \<Rightarrow> ndarray \<Rightarrow> ndarray \<Rightarrow> int \<Rightarrow> int \<Rightarrow> py_error + ndarray" where
  "flash_attention q k v b_r b_c =
     (case flash_asserts q k v b_r b_c of
        Some e \<Rightarrow> Inl e
      | None \<Rightarrow> bind_err (flash_loops q k v b_r b_c) (\<lambda>st. np_concatenate (fst st)))"

section \<open>Standard attention\<close>

definition standard_attention :: "ndarray \<Rightarrow> ndarray \<Rightarrow> ndarray \<Rightarrow> py_error + ndarray" where
  "standard_attention Q K V =
     bind_err (np_matmul Q (transpose_T K)) (\<lambda>scores.
     bind_err (np_max_axis1 scores) (\<lambda>row_max.
     bind_err (np_sub scores row_max) (\<lambda>arg.
     let attention_weights = np_exp arg in
     bind_err (np_idiv attention_weights (np_sum_axis1 attention_weights)) (\<lambda>attention_weights.
     np_matmul attention_weights V))))"

section \<open>Quantities used in the statements and proofs\<close>

text \<open>
  The array of shape r x c whose elements are the finite values \<open>F i j\<close>; a well-formed
  real-valued array \<open>a\<close> is \<open>rmat (shape0 a) (shape1 a) (ritem a)\<close>.
\<close>

definition rmat :: "nat \<Rightarrow> nat \<Rightarrow> (nat \<Rightarrow> nat \<Rightarrow> real) \<Rightarrow> ndarray" where
  "rmat r c F = tabulate2 r c (\<lambda>i j. Fin (F i j))"

fun re :: "pyfloat \<Rightarrow> real" where
  "re (Fin a) = a"
| "re x = 0"

definition ritem :: "ndarray \<Rightarrow> nat \<Rightarrow> nat \<Rightarrow> real" where
  "ritem a i j = re (item a i j)"

text \<open>A running maximum is minus infinity (nothing seen yet) or finite.\<close>

fun lowfin :: "pyfloat \<Rightarrow> bool" where
  "lowfin NInf = True"
| "lowfin (Fin a) = True"
| "lowfin x = False"

text \<open>
  The merge of one row over real numbers: \<open>mmax m y\<close> is \<open>max(m, y)\<close> and \<open>mscale m y\<close> is
  \<open>exp(m - y)\<close> for a running maximum \<open>m\<close> and a finite \<open>y\<close>. For the scores \<open>srow\<close> of one
  row against the \<open>c\<close> keys of a block, \<open>tile_mloc\<close> is the local maximum, and \<open>tile_m\<close>,
  \<open>tile_l\<close>, \<open>tile_o\<close> are the new maximum, normaliser and output element.
\<close>

fun mmax :: "pyfloat \<Rightarrow> real \<Rightarrow> real" where
  "mmax (Fin x) y = max x y"
| "mmax m y = y"

fun mscale :: "pyfloat \<Rightarrow> real \<Rightarrow> real" where
  "mscale (Fin x) y = exp (x - y)"
| "mscale m y = 0"

definition tile_mloc :: "(nat \<Rightarrow> real) \<Rightarrow> nat \<Rightarrow> real" where
  "tile_mloc srow c = Max (srow ` {..<c})"

definition tile_m :: "pyfloat \<Rightarrow> (nat \<Rightarrow> real) \<Rightarrow> nat \<Rightarrow> real" where
  "tile_m mv srow c = mmax mv (tile_mloc srow c)"

definition tile_l :: "pyfloat \<Rightarrow> real \<Rightarrow> (nat \<Rightarrow> real) \<Rightarrow> nat \<Rightarrow> real" where
  "tile_l mv lv srow c =
     lv * mscale mv (tile_m mv srow c)
     + (\<Sum>t<c. exp (srow t - tile_mloc srow c)) * exp (tile_mloc srow c - tile_m mv srow c)"

definition tile_o_num :: "pyfloat \<Rightarrow> real \<Rightarrow> real \<Rightarrow> (nat \<Rightarrow> real) \<Rightarrow> (nat \<Rightarrow> real) \<Rightarrow> nat \<Rightarrow> real" where
  "tile_o_num mv lv ov srow vcol c =
     (\<Sum>t<c. exp (tile_mloc srow c - tile_m mv srow c) * exp (srow t - tile_mloc srow c) * vcol t)
      + lv * mscale mv (tile_m mv srow c) * ov"

definition tile_o :: "pyfloat \<Rightarrow> real \<Rightarrow> real \<Rightarrow> (nat \<Rightarrow> real) \<Rightarrow> (nat \<Rightarrow> real) \<Rightarrow> nat \<Rightarrow> real" where
  "tile_o mv lv ov srow vcol c = tile_o_num mv lv ov srow vcol c / tile_l mv lv srow c"

text \<open>
  The state of one row after the first \<open>n\<close> keys: the maximum \<open>mlev\<close> of its scores, the
  sum \<open>Zsum\<close> of \<open>exp(score - maximum)\<close>, and the sum \<open>Usum\<close> of these weights times a
  column of V.
\<close>

definition mlev :: "(nat \<Rightarrow> real) \<Rightarrow> nat \<Rightarrow> pyfloat" where
  "mlev srow n = (if n = 0 then NInf else Fin (tile_mloc srow n))"

definition Zsum :: "(nat \<Rightarrow> real) \<Rightarrow> nat \<Rightarrow> real" where
  "Zsum srow n = (\<Sum>t<n. exp (srow t - tile_mloc srow n))"

definition Usum :: "(nat \<Rightarrow> real) \<Rightarrow> (nat \<Rightarrow> real) \<Rightarrow> nat \<Rightarrow> real" where
  "Usum srow vcol n = (\<Sum>t<n. exp (srow t - tile_mloc srow n) * vcol t)"

text \<open>
  For real matrices given by their elements: the score of query row \<open>r\<close> against key row
  \<open>t\<close>, the output element after \<open>n\<close> keys, and the blocks of o, m and l that hold row
  block \<open>i\<close> after \<open>n\<close> keys.
\<close>

definition score :: "(nat \<Rightarrow> nat \<Rightarrow> real) \<Rightarrow> (nat \<Rightarrow> nat \<Rightarrow> real) \<Rightarrow> nat \<Rightarrow> nat \<Rightarrow> nat \<Rightarrow> real" where
  "score Q K d r t = (\<Sum>u<d. Q r u * K t u)"

definition o_level :: "(nat \<Rightarrow> nat \<Rightarrow> real) \<Rightarrow> (nat \<Rightarrow> nat \<Rightarrow> real) \<Rightarrow> (nat \<Rightarrow> nat \<Rightarrow> real) \<Rightarrow> nat \<Rightarrow> nat
    \<Rightarrow> nat \<Rightarrow> nat \<Rightarrow> real" where
  "o_level Q K V d n r t = Usum (score Q K d r) (\<lambda>c. V c t) n / Zsum (score Q K d r) n"

definition o_block_at :: "(nat \<Rightarrow> nat \<Rightarrow> real) \<Rightarrow> (nat \<Rightarrow> nat \<Rightarrow> real) \<Rightarrow> (nat \<Rightarrow> nat \<Rightarrow> real) \<Rightarrow> nat \<Rightarrow> nat
    \<Rightarrow> nat \<Rightarrow> nat \<Rightarrow> ndarray" where
  "o_block_at Q K V d br n i = rmat br d (\<lambda>a t. o_level Q K V d n (i * br + a) t)"

definition m_block_at :: "(nat \<Rightarrow> nat \<Rightarrow> real) \<Rightarrow> (nat \<Rightarrow> nat \<Rightarrow> real) \<Rightarrow> nat \<Rightarrow> nat
    \<Rightarrow> nat \<Rightarrow> nat \<Rightarrow> ndarray" where
  "m_block_at Q K d br n i = tabulate2 br 1 (\<lambda>a t. mlev (score Q K d (i * br + a)) n)"

definition l_block_at :: "(nat \<Rightarrow> nat \<Rightarrow> real) \<Rightarrow> (nat \<Rightarrow> nat \<Rightarrow> real) \<Rightarrow> nat \<Rightarrow> nat
    \<Rightarrow> nat \<Rightarrow> nat \<Rightarrow> ndarray" where
  "l_block_at Q K d br n i = rmat br 1 (\<lambda>a t. Zsum (score Q K d (i * br + a)) n)"

definition state_at :: "(nat \<Rightarrow> nat \<Rightarrow> real) \<Rightarrow> (nat \<Rightarrow> nat \<Rightarrow> real) \<Rightarrow> (nat \<Rightarrow> nat \<Rightarrow> real) \<Rightarrow> nat \<Rightarrow> nat
    \<Rightarrow> nat \<Rightarrow> nat \<Rightarrow> blocks_state" where
  "state_at Q K V d br nq n =
     (map (o_block_at Q K V d br n) [0..<nq], map (m_block_at Q K d br n) [0..<nq],
      map (l_block_at Q K d br n) [0..<nq])"


text \<open>Vocabulary for the blocks of one pass: a well-formed array of a given shape, and an
  array of running maxima.\<close>

definition has_shape :: "ndarray \<Rightarrow> nat \<Rightarrow> nat \<Rightarrow> bool" where
  "has_shape a r c = (wf_array a \<and> shape0 a = r \<and> shape1 a = c)"

definition running_max_valued :: "ndarray \<Rightarrow> bool" where
  "running_max_valued a = list_all (list_all lowfin) (data a)"

section \<open>Properties\<close>

subsection \<open>Arrays as tables of their elements\<close>

lemma bind_err_simps [simp]:
  "bind_err (Inl e) f = Inl e" "bind_err (Inr x) f = f x"
  by (simp_all add: bind_err_def)

lemma tabulate2_sel [simp]:
  "shape0 (tabulate2 r c f) = r" "shape1 (tabulate2 r c f) = c"
  "length (data (tabulate2 r c f)) = r"
  by (simp_all add: tabulate2_def)

lemma item_tabulate2 [simp]: "i < r \<Longrightarrow> j < c \<Longrightarrow> item (tabulate2 r c f) i j = f i j"
  by (simp add: tabulate2_def item_def)

lemma wf_tabulate2 [simp]: "wf_array (tabulate2 r c f)"
  by (simp add: wf_array_def tabulate2_def list_all_iff)

lemma tabulate2_cong:
  "r = r' \<Longrightarrow> c = c' \<Longrightarrow> (\<And>i j. i < r' \<Longrightarrow> j < c' \<Longrightarrow> f i j = g i j)
     \<Longrightarrow> tabulate2 r c f = tabulate2 r' c' g"
  by (simp add: tabulate2_def)

lemma wf_array_tabulate2:
  assumes "wf_array a"
  shows "a = tabulate2 (shape0 a) (shape1 a) (item a)"
proof -
  have len: "length (data a) = shape0 a" and rows: "\<And>r. r \<in> set (data a) \<Longrightarrow> length r = shape1 a"
    using assms by (auto simp: wf_array_def list_all_iff)
  have "data a = map (\<lambda>i. map (\<lambda>j. data a ! i ! j) [0..<shape1 a]) [0..<shape0 a]"
  proof (rule nth_equalityI)
    show "length (data a) = length (map (\<lambda>i. map (\<lambda>j. data a ! i ! j) [0..<shape1 a]) [0..<shape0 a])"
      by (simp add: len)
  next
    fix i assume i: "i < length (data a)"
    then have "length (data a ! i) = shape1 a" by (simp add: rows)
    then have "data a ! i = map (\<lambda>j. data a ! i ! j) [0..<shape1 a]"
      by (intro nth_equalityI) simp_all
    then show "data a ! i = map (\<lambda>i. map (\<lambda>j. data a ! i ! j) [0..<shape1 a]) [0..<shape0 a] ! i"
      using i len by simp
  qed
  then show ?thesis
    by (intro ndarray.equality) (simp_all add: tabulate2_def item_def)
qed

lemma real_valued_item:
  assumes "wf_array a" "real_valued a" "i < shape0 a" "j < shape1 a"
  shows "item a i j = Fin (ritem a i j)"
proof -
  have "data a ! i \<in> set (data a)" using assms by (simp add: wf_array_def)
  moreover then have "length (data a ! i) = shape1 a" using assms by (simp add: wf_array_def list_all_iff)
  ultimately have "is_Fin (data a ! i ! j)"
    using assms by (auto simp: real_valued_def list_all_iff)
  then show ?thesis by (cases "data a ! i ! j") (simp_all add: ritem_def item_def)
qed

lemma real_array_rmat:
  assumes "wf_array a" "real_valued a"
  shows "a = rmat (shape0 a) (shape1 a) (ritem a)"
proof -
  have "a = tabulate2 (shape0 a) (shape1 a) (item a)" using assms(1) by (rule wf_array_tabulate2)
  also have "\<dots> = rmat (shape0 a) (shape1 a) (ritem a)"
    unfolding rmat_def using assms by (intro tabulate2_cong) (simp_all add: real_valued_item)
  finally show ?thesis .
qed

lemma rmat_sel [simp]:
  "shape0 (rmat r c F) = r" "shape1 (rmat r c F) = c"
  by (simp_all add: rmat_def)

lemma item_rmat [simp]: "i < r \<Longrightarrow> j < c \<Longrightarrow> item (rmat r c F) i j = Fin (F i j)"
  by (simp add: rmat_def)

lemma rmat_cong:
  "r = r' \<Longrightarrow> c = c' \<Longrightarrow> (\<And>i j. i < r' \<Longrightarrow> j < c' \<Longrightarrow> F i j = G i j)
     \<Longrightarrow> rmat r c F = rmat r' c' G"
  unfolding rmat_def by (rule tabulate2_cong) simp_all

subsection \<open>The NumPy operations on real-valued arrays\<close>

lemma fsub_Fin [simp]: "fsub (Fin a) (Fin b) = Fin (a - b)"
  by (simp add: fsub_def)

lemma fsub_NInf_Fin [simp]: "fsub NInf (Fin b) = NInf"
  by (simp add: fsub_def)

lemma foldl_fadd_Fin:
  "foldl fadd (Fin a) (map (\<lambda>t. Fin (g t)) xs) = Fin (a + sum_list (map g xs))"
  by (induction xs arbitrary: a) (simp_all add: add.assoc)

lemma fsum_Fin: "fsum (map (\<lambda>t. Fin (g t)) [0..<n]) = Fin (sum g {..<n})"
  by (simp add: fsum_def foldl_fadd_Fin interv_sum_list_conv_sum_set_nat atLeast0LessThan)

lemma fmaximum_Fin [simp]: "fmaximum (Fin a) (Fin b) = Fin (max a b)"
  by (simp add: fmaximum_def max_def not_less)

lemma foldl_fmaximum_Fin:
  "foldl fmaximum (Fin a) (map (\<lambda>t. Fin (g t)) xs) = Fin (foldl max a (map g xs))"
  by (induction xs arbitrary: a) simp_all

lemma foldl_max_Max: "foldl max (a::real) xs = Max (set (a # xs))"
proof -
  have "foldl max a xs = fold max xs a"
    by (simp add: foldl_conv_fold max.commute)
  then show ?thesis by (simp only: Max.set_eq_fold)
qed

lemma row_max_Fin:
  assumes "0 < c"
  shows "foldl fmaximum (Fin (g 0)) (map (\<lambda>t. Fin (g t)) [1..<c]) = Fin (Max (g ` {..<c}))"
proof -
  have "{..<c} = insert 0 {1..<c}" using assms by auto
  then have "g ` {..<c} = set (g 0 # map g [1..<c])" by simp
  then show ?thesis by (simp only: foldl_fmaximum_Fin foldl_max_Max)
qed

lemma np_matmul_rmat:
  "np_matmul (rmat r c F) (rmat c d G) = Inr (rmat r d (\<lambda>i j. \<Sum>t<c. F i t * G t j))"
proof -
  have "tabulate2 r d (\<lambda>i j. fsum (map (\<lambda>t. fmul (item (rmat r c F) i t) (item (rmat c d G) t j)) [0..<c]))
      = rmat r d (\<lambda>i j. \<Sum>t<c. F i t * G t j)"
    unfolding rmat_def[of r d]
  proof (rule tabulate2_cong)
    fix i j assume ij: "i < r" "j < d"
    have "map (\<lambda>t. fmul (item (rmat r c F) i t) (item (rmat c d G) t j)) [0..<c]
        = map (\<lambda>t. Fin (F i t * G t j)) [0..<c]"
      using ij by (intro map_cong) simp_all
    then show "fsum (map (\<lambda>t. fmul (item (rmat r c F) i t) (item (rmat c d G) t j)) [0..<c])
        = Fin (\<Sum>t<c. F i t * G t j)"
      by (simp only: fsum_Fin)
  qed simp_all
  then show ?thesis by (simp add: np_matmul_def)
qed

lemma transpose_T_rmat: "transpose_T (rmat r c F) = rmat c r (\<lambda>i j. F j i)"
  unfolding transpose_T_def rmat_def[of c r] by (rule tabulate2_cong) simp_all

lemma np_max_axis1_rmat:
  assumes "0 < c"
  shows "np_max_axis1 (rmat r c F) = Inr (rmat r 1 (\<lambda>i j. Max (F i ` {..<c})))"
proof -
  have "tabulate2 r 1 (\<lambda>i j. foldl fmaximum (item (rmat r c F) i 0) (map (item (rmat r c F) i) [1..<c]))
      = rmat r 1 (\<lambda>i j. Max (F i ` {..<c}))"
    unfolding rmat_def[of r 1]
  proof (rule tabulate2_cong)
    fix i j assume i: "i < r"
    have "map (item (rmat r c F) i) [1..<c] = map (\<lambda>t. Fin (F i t)) [1..<c]"
      using i by (intro map_cong) simp_all
    moreover have "item (rmat r c F) i 0 = Fin (F i 0)" using i assms by simp
    ultimately show "foldl fmaximum (item (rmat r c F) i 0) (map (item (rmat r c F) i) [1..<c])
        = Fin (Max (F i ` {..<c}))"
      using assms by (simp only: row_max_Fin)
  qed simp_all
  then show ?thesis using assms by (simp add: np_max_axis1_def)
qed

lemma np_sum_axis1_rmat: "np_sum_axis1 (rmat r c F) = rmat r 1 (\<lambda>i j. \<Sum>t<c. F i t)"
  unfolding np_sum_axis1_def rmat_def[of r 1]
proof (rule tabulate2_cong)
  fix i j assume i: "i < r"
  have "map (item (rmat r c F) i) [0..<c] = map (\<lambda>t. Fin (F i t)) [0..<c]"
    using i by (intro map_cong) simp_all
  then show "fsum (map (item (rmat r c F) i) [0..<shape1 (rmat r c F)]) = Fin (\<Sum>t<c. F i t)"
    by (simp only: fsum_Fin rmat_sel)
qed simp_all

lemma np_exp_tabulate2: "np_exp (tabulate2 r c f) = tabulate2 r c (\<lambda>i j. fexp (f i j))"
  unfolding np_exp_def by (rule tabulate2_cong) simp_all

lemma np_exp_rmat: "np_exp (rmat r c F) = rmat r c (\<lambda>i j. exp (F i j))"
  by (simp add: rmat_def np_exp_tabulate2)

lemma bidx_lt [simp]: "i < n \<Longrightarrow> bidx n i = i"
  by (auto simp: bidx_def)

lemma bidx_one [simp]: "bidx (Suc 0) i = 0"
  by (simp add: bidx_def)

lemma bdim_simps [simp]: "bdim n n = n" "bdim n (Suc 0) = n"  "bdim (Suc 0) n = n"
  by (simp_all add: bdim_def)

lemma compatible_simps [simp]: "compatible n n" "compatible n (Suc 0)" "compatible (Suc 0) n"
  by (simp_all add: compatible_def)

lemma broadcast_same:
  "broadcast f (tabulate2 r c A) (tabulate2 r c B) = Inr (tabulate2 r c (\<lambda>i j. f (A i j) (B i j)))"
proof -
  have "tabulate2 r c (\<lambda>i j. f (item (tabulate2 r c A) (bidx r i) (bidx c j))
                               (item (tabulate2 r c B) (bidx r i) (bidx c j)))
      = tabulate2 r c (\<lambda>i j. f (A i j) (B i j))"
    by (rule tabulate2_cong) simp_all
  then show ?thesis by (simp add: broadcast_def)
qed

lemma broadcast_mat_col:
  "broadcast f (tabulate2 r c A) (tabulate2 r (Suc 0) B) = Inr (tabulate2 r c (\<lambda>i j. f (A i j) (B i 0)))"
proof -
  have "tabulate2 r c (\<lambda>i j. f (item (tabulate2 r c A) (bidx r i) (bidx c j))
                               (item (tabulate2 r (Suc 0) B) (bidx r i) (bidx (Suc 0) j)))
      = tabulate2 r c (\<lambda>i j. f (A i j) (B i 0))"
    by (rule tabulate2_cong) simp_all
  then show ?thesis by (simp add: broadcast_def)
qed

lemma broadcast_col_mat:
  "broadcast f (tabulate2 r (Suc 0) A) (tabulate2 r c B) = Inr (tabulate2 r c (\<lambda>i j. f (A i 0) (B i j)))"
proof -
  have "tabulate2 r c (\<lambda>i j. f (item (tabulate2 r (Suc 0) A) (bidx r i) (bidx (Suc 0) j))
                               (item (tabulate2 r c B) (bidx r i) (bidx c j)))
      = tabulate2 r c (\<lambda>i j. f (A i 0) (B i j))"
    by (rule tabulate2_cong) simp_all
  then show ?thesis by (simp add: broadcast_def)
qed

subsection \<open>One pass of the loop body on real-valued blocks\<close>

lemma fmaximum_lowfin: "lowfin m \<Longrightarrow> fmaximum m (Fin y) = Fin (mmax m y)"
  by (cases m) (simp_all add: fmaximum_def max_def not_less)

lemma fexp_fsub_lowfin: "lowfin m \<Longrightarrow> fexp (fsub m (Fin y)) = Fin (mscale m y)"
  by (cases m) (simp_all add: fsub_def)

lemma tile_l_pos:
  assumes "0 < c" "0 \<le> lv"
  shows "0 < tile_l mv lv srow c"
proof -
  have "0 \<le> mscale mv (tile_m mv srow c)" by (cases mv) simp_all
  then have a: "0 \<le> lv * mscale mv (tile_m mv srow c)" using assms by simp
  have "0 < (\<Sum>t<c. exp (srow t - tile_mloc srow c))"
    using assms by (intro sum_pos) auto
  then have "0 < (\<Sum>t<c. exp (srow t - tile_mloc srow c)) * exp (tile_mloc srow c - tile_m mv srow c)"
    by simp
  with a show ?thesis unfolding tile_l_def by linarith
qed

lemma tile_body_real:
  fixes Qb Kb Vb ov :: "nat \<Rightarrow> nat \<Rightarrow> real" and mval :: "nat \<Rightarrow> pyfloat" and lv :: "nat \<Rightarrow> real"
    and r c d :: nat
  assumes c: "0 < c" and mv: "\<And>i. lowfin (mval i)"
  defines "S \<equiv> \<lambda>i t. \<Sum>u<d. Qb i u * Kb t u"
  shows "tile_body (rmat r d Qb) (tabulate2 r 1 (\<lambda>i j. mval i)) (rmat r 1 (\<lambda>i j. lv i)) (rmat r d ov)
           (rmat c d Kb) (rmat c d Vb)
     = Inr \<lparr>s_i_j = rmat r c S,
            m_i_j = rmat r 1 (\<lambda>i j. tile_mloc (S i) c),
            exp_arg_p = rmat r c (\<lambda>i t. S i t - tile_mloc (S i) c),
            p_i_j = rmat r c (\<lambda>i t. exp (S i t - tile_mloc (S i) c)),
            l_i_j = rmat r 1 (\<lambda>i j. \<Sum>t<c. exp (S i t - tile_mloc (S i) c)),
            m_i_new = rmat r 1 (\<lambda>i j. tile_m (mval i) (S i) c),
            exp_arg_old = tabulate2 r 1 (\<lambda>i j. fsub (mval i) (Fin (tile_m (mval i) (S i) c))),
            exp_arg_cur = rmat r 1 (\<lambda>i j. tile_mloc (S i) c - tile_m (mval i) (S i) c),
            l_i_new = rmat r 1 (\<lambda>i j. tile_l (mval i) (lv i) (S i) c),
            current_o_block = rmat r d (\<lambda>i j. \<Sum>t<c. exp (tile_mloc (S i) c - tile_m (mval i) (S i) c)
                                  * exp (S i t - tile_mloc (S i) c) * Vb t j),
            updated_old_o_block = rmat r d (\<lambda>i j. lv i * mscale (mval i) (tile_m (mval i) (S i) c) * ov i j),
            o_i_new = tabulate2 r d (\<lambda>i j. fdiv (Fin (tile_o_num (mval i) (lv i) (ov i j) (S i) (\<lambda>t. Vb t j) c))
                                           (Fin (tile_l (mval i) (lv i) (S i) c)))\<rparr>"
proof -
  have s1: "np_matmul (rmat r d Qb) (transpose_T (rmat c d Kb)) = Inr (rmat r c S)"
    by (simp add: transpose_T_rmat np_matmul_rmat S_def)
  have s2: "np_max_axis1 (rmat r c S) = Inr (rmat r 1 (\<lambda>i j. tile_mloc (S i) c))"
    using c by (simp add: np_max_axis1_rmat tile_mloc_def)
  have s3: "np_sub (rmat r c S) (rmat r 1 (\<lambda>i j. tile_mloc (S i) c))
      = Inr (rmat r c (\<lambda>i t. S i t - tile_mloc (S i) c))"
    by (simp add: np_sub_def rmat_def broadcast_mat_col)
  have s4: "np_maximum (tabulate2 r 1 (\<lambda>i j. mval i)) (rmat r 1 (\<lambda>i j. tile_mloc (S i) c))
      = Inr (rmat r 1 (\<lambda>i j. tile_m (mval i) (S i) c))"
    by (simp add: np_maximum_def rmat_def broadcast_same fmaximum_lowfin mv tile_m_def)
  have s5: "np_sub (tabulate2 r 1 (\<lambda>i j. mval i)) (rmat r 1 (\<lambda>i j. tile_m (mval i) (S i) c))
      = Inr (tabulate2 r 1 (\<lambda>i j. fsub (mval i) (Fin (tile_m (mval i) (S i) c))))"
    by (simp add: np_sub_def rmat_def broadcast_same)
  have s5e: "np_exp (tabulate2 r 1 (\<lambda>i j. fsub (mval i) (Fin (tile_m (mval i) (S i) c))))
      = rmat r 1 (\<lambda>i j. mscale (mval i) (tile_m (mval i) (S i) c))"
    by (simp add: np_exp_tabulate2 rmat_def fexp_fsub_lowfin mv)
  have s6: "np_sub (rmat r 1 (\<lambda>i j. tile_mloc (S i) c)) (rmat r 1 (\<lambda>i j. tile_m (mval i) (S i) c))
      = Inr (rmat r 1 (\<lambda>i j. tile_mloc (S i) c - tile_m (mval i) (S i) c))"
    by (simp add: np_sub_def rmat_def broadcast_same)
  have s7: "np_mul (rmat r 1 (\<lambda>i j. lv i)) (rmat r 1 (\<lambda>i j. mscale (mval i) (tile_m (mval i) (S i) c)))
      = Inr (rmat r 1 (\<lambda>i j. lv i * mscale (mval i) (tile_m (mval i) (S i) c)))"
    by (simp add: np_mul_def rmat_def broadcast_same)
  have s8: "np_mul (rmat r 1 (\<lambda>i j. \<Sum>t<c. exp (S i t - tile_mloc (S i) c)))
                   (rmat r 1 (\<lambda>i j. exp (tile_mloc (S i) c - tile_m (mval i) (S i) c)))
      = Inr (rmat r 1 (\<lambda>i j. (\<Sum>t<c. exp (S i t - tile_mloc (S i) c))
                                * exp (tile_mloc (S i) c - tile_m (mval i) (S i) c)))"
    by (simp add: np_mul_def rmat_def broadcast_same)
  have s9: "np_add (rmat r 1 (\<lambda>i j. lv i * mscale (mval i) (tile_m (mval i) (S i) c)))
                   (rmat r 1 (\<lambda>i j. (\<Sum>t<c. exp (S i t - tile_mloc (S i) c))
                                * exp (tile_mloc (S i) c - tile_m (mval i) (S i) c)))
      = Inr (rmat r 1 (\<lambda>i j. tile_l (mval i) (lv i) (S i) c))"
    by (simp add: np_add_def rmat_def broadcast_same tile_l_def)
  have s10: "np_mul (rmat r 1 (\<lambda>i j. exp (tile_mloc (S i) c - tile_m (mval i) (S i) c)))
                    (rmat r c (\<lambda>i t. exp (S i t - tile_mloc (S i) c)))
      = Inr (rmat r c (\<lambda>i t. exp (tile_mloc (S i) c - tile_m (mval i) (S i) c)
                               * exp (S i t - tile_mloc (S i) c)))"
    by (simp add: np_mul_def rmat_def broadcast_col_mat)
  have s11: "np_matmul (rmat r c (\<lambda>i t. exp (tile_mloc (S i) c - tile_m (mval i) (S i) c)
                               * exp (S i t - tile_mloc (S i) c))) (rmat c d Vb)
      = Inr (rmat r d (\<lambda>i j. \<Sum>t<c. exp (tile_mloc (S i) c - tile_m (mval i) (S i) c)
                                  * exp (S i t - tile_mloc (S i) c) * Vb t j))"
    by (simp add: np_matmul_rmat)
  have s12: "np_mul (rmat r 1 (\<lambda>i j. lv i * mscale (mval i) (tile_m (mval i) (S i) c))) (rmat r d ov)
      = Inr (rmat r d (\<lambda>i j. lv i * mscale (mval i) (tile_m (mval i) (S i) c) * ov i j))"
    by (simp add: np_mul_def rmat_def broadcast_col_mat)
  have s13: "np_add (rmat r d (\<lambda>i j. \<Sum>t<c. exp (tile_mloc (S i) c - tile_m (mval i) (S i) c)
                                  * exp (S i t - tile_mloc (S i) c) * Vb t j))
                    (rmat r d (\<lambda>i j. lv i * mscale (mval i) (tile_m (mval i) (S i) c) * ov i j))
      = Inr (rmat r d (\<lambda>i j. (\<Sum>t<c. exp (tile_mloc (S i) c - tile_m (mval i) (S i) c)
                                  * exp (S i t - tile_mloc (S i) c) * Vb t j)
                               + lv i * mscale (mval i) (tile_m (mval i) (S i) c) * ov i j))"
    by (simp add: np_add_def rmat_def broadcast_same)
  have s14: "np_div (rmat r d (\<lambda>i j. (\<Sum>t<c. exp (tile_mloc (S i) c - tile_m (mval i) (S i) c)
                                  * exp (S i t - tile_mloc (S i) c) * Vb t j)
                               + lv i * mscale (mval i) (tile_m (mval i) (S i) c) * ov i j))
                    (rmat r 1 (\<lambda>i j. tile_l (mval i) (lv i) (S i) c))
      = Inr (tabulate2 r d (\<lambda>i j. fdiv (Fin (tile_o_num (mval i) (lv i) (ov i j) (S i) (\<lambda>t. Vb t j) c))
                                           (Fin (tile_l (mval i) (lv i) (S i) c))))"
    by (simp add: np_div_def rmat_def broadcast_mat_col tile_o_num_def del: fdiv.simps)
  show ?thesis
    unfolding tile_body_def
    by (simp only: s1 s2 s3 s4 s5 s5e s6 s7 s8 s9 s10 s11 s12 s13 s14 bind_err_simps Let_def
          np_exp_rmat np_sum_axis1_rmat)
qed

subsection \<open>Merging a block of keys into the state of a row\<close>

lemma sum_split_shift:
  fixes f :: "nat \<Rightarrow> real"
  shows "(\<Sum>t<n + c. f t) = (\<Sum>t<n. f t) + (\<Sum>t<c. f (n + t))"
  by (induction c) (simp_all add: add.assoc)

lemma sum_exp_rescale:
  fixes f :: "nat \<Rightarrow> real"
  shows "(\<Sum>t<n. exp (f t - m1)) * exp (m1 - m2) = (\<Sum>t<n. exp (f t - m2))"
  by (simp add: sum_distrib_right mult_exp_exp)

lemma sum_exp_rescale_weighted:
  fixes f w :: "nat \<Rightarrow> real"
  shows "exp (m1 - m2) * (\<Sum>t<n. exp (f t - m1) * w t) = (\<Sum>t<n. exp (f t - m2) * w t)"
proof -
  have "\<And>t. exp (m1 - m2) * (exp (f t - m1) * w t) = exp (f t - m2) * w t"
    by (simp add: mult.assoc[symmetric] mult_exp_exp)
  then have "(\<Sum>t<n. exp (m1 - m2) * (exp (f t - m1) * w t)) = (\<Sum>t<n. exp (f t - m2) * w t)"
    by (simp only:)
  then show ?thesis by (simp only: sum_distrib_left)
qed

lemma tile_mloc_split:
  assumes "0 < n" "0 < c"
  shows "tile_mloc srow (n + c) = max (tile_mloc srow n) (tile_mloc (\<lambda>t. srow (n + t)) c)"
proof -
  have img: "(\<lambda>t. srow (n + t)) ` {..<c} = srow ` {n..<n + c}"
  proof -
    have "(\<lambda>t. n + t) ` {..<c} = {n..<n + c}"
      by (auto simp: image_iff) (metis le_Suc_ex add_less_cancel_left lessThan_iff)
    then show ?thesis by (metis image_image)
  qed
  have un: "{..<n + c} = {..<n} \<union> {n..<n + c}" by auto
  have "Max (srow ` {..<n + c}) = Max (srow ` {..<n} \<union> srow ` {n..<n + c})"
    by (simp add: un image_Un)
  also have "\<dots> = max (Max (srow ` {..<n})) (Max (srow ` {n..<n + c}))"
    using assms by (intro Max_Un) auto
  finally show ?thesis by (simp add: tile_mloc_def img)
qed

lemma tile_m_level:
  assumes "0 < c"
  shows "tile_m (mlev srow n) (\<lambda>t. srow (n + t)) c = tile_mloc srow (n + c)"
proof (cases "n = 0")
  case True
  then show ?thesis by (simp add: tile_m_def mlev_def)
next
  case False
  then show ?thesis using assms by (simp add: tile_m_def mlev_def tile_mloc_split)
qed

lemma Zsum_nonneg: "0 \<le> Zsum srow n"
  unfolding Zsum_def by (rule sum_nonneg) simp

lemma Zsum_pos: "0 < n \<Longrightarrow> 0 < Zsum srow n"
  unfolding Zsum_def by (rule sum_pos) auto

lemma scaled_Zsum:
  "Zsum srow n * mscale (mlev srow n) m2 = (\<Sum>t<n. exp (srow t - m2))"
proof (cases "n = 0")
  case True
  then show ?thesis by (simp add: Zsum_def mlev_def)
next
  case False
  then show ?thesis by (simp add: Zsum_def mlev_def sum_exp_rescale)
qed

lemma tile_l_level:
  assumes "0 < c"
  shows "tile_l (mlev srow n) (Zsum srow n) (\<lambda>t. srow (n + t)) c = Zsum srow (n + c)"
proof -
  have "tile_l (mlev srow n) (Zsum srow n) (\<lambda>t. srow (n + t)) c
      = (\<Sum>t<n. exp (srow t - tile_mloc srow (n + c)))
        + (\<Sum>t<c. exp (srow (n + t) - tile_mloc srow (n + c)))"
    unfolding tile_l_def tile_m_level[OF assms] by (simp only: scaled_Zsum sum_exp_rescale)
  then show ?thesis by (simp add: Zsum_def sum_split_shift)
qed

lemma tile_o_level:
  assumes "0 < c"
  shows "tile_o (mlev srow n) (Zsum srow n) (Usum srow vcol n / Zsum srow n)
           (\<lambda>t. srow (n + t)) (\<lambda>t. vcol (n + t)) c
         = Usum srow vcol (n + c) / Zsum srow (n + c)"
proof -
  let ?M = "tile_mloc srow (n + c)"
  let ?Ml = "tile_mloc (\<lambda>t. srow (n + t)) c"
  have new: "(\<Sum>t<c. exp (?Ml - ?M) * exp (srow (n + t) - ?Ml) * vcol (n + t))
      = (\<Sum>t<c. exp (srow (n + t) - ?M) * vcol (n + t))"
    using sum_exp_rescale_weighted[of ?Ml ?M "\<lambda>t. srow (n + t)" "\<lambda>t. vcol (n + t)" c]
    by (simp add: sum_distrib_left mult.assoc)
  have old: "Zsum srow n * mscale (mlev srow n) ?M * (Usum srow vcol n / Zsum srow n)
      = (\<Sum>t<n. exp (srow t - ?M) * vcol t)"
  proof (cases "n = 0")
    case True
    then show ?thesis by (simp add: Zsum_def)
  next
    case False
    then have "Zsum srow n \<noteq> 0" using Zsum_pos[of n srow] by simp
    then have "Zsum srow n * mscale (mlev srow n) ?M * (Usum srow vcol n / Zsum srow n)
        = mscale (mlev srow n) ?M * Usum srow vcol n" by simp
    also have "\<dots> = (\<Sum>t<n. exp (srow t - ?M) * vcol t)"
      using False by (simp add: mlev_def Usum_def sum_exp_rescale_weighted)
    finally show ?thesis .
  qed
  show ?thesis
    unfolding tile_o_def tile_o_num_def tile_l_level[OF assms] tile_m_level[OF assms] new old
    by (simp add: Usum_def sum_split_shift)
qed

subsection \<open>Blocks, the two loops and the concatenation\<close>

lemma slice_rows_tabulate2:
  assumes "s \<le> e" "e \<le> n"
  shows "slice_rows (tabulate2 n d f) s e = tabulate2 (e - s) d (\<lambda>a t. f (s + a) t)"
proof -
  have "tabulate2 (e - s) d (\<lambda>i j. item (tabulate2 n d f) (s + i) j)
      = tabulate2 (e - s) d (\<lambda>a t. f (s + a) t)"
    using assms by (intro tabulate2_cong) simp_all
  then show ?thesis using assms by (simp add: slice_rows_def Let_def min_absorb1)
qed

lemma slice_rows_rmat:
  assumes "s \<le> e" "e \<le> n"
  shows "slice_rows (rmat n d F) s e = rmat (e - s) d (\<lambda>a t. F (s + a) t)"
  using assms by (simp add: rmat_def slice_rows_tabulate2)

lemma range0_blocks:
  assumes "0 < b"
  shows "range0 (n * b) (int b) = map (\<lambda>t. t * b) [0..<n]"
proof -
  have "(n * b + b - 1) div b = n"
    using assms by (intro div_nat_eqI) (simp_all add: algebra_simps)
  then show ?thesis using assms by (simp add: range0_def)
qed

lemma fold_update_nth:
  "k < length xs \<Longrightarrow>
     fold (\<lambda>i ys. ys[i := g i]) is xs ! k = (if k \<in> set is then g k else xs ! k)"
  by (induction "is" arbitrary: xs) (auto simp: nth_list_update)

lemma fold_update_length [simp]: "length (fold (\<lambda>i ys. ys[i := g i]) is xs) = length xs"
  by (induction "is" arbitrary: xs) simp_all

lemma fold_update_all:
  assumes "length xs = n"
  shows "fold (\<lambda>i ys. ys[i := g i]) [0..<n] xs = map g [0..<n]"
  using assms by (intro nth_equalityI) (simp_all add: fold_update_nth)

lemma inner_loop_fold:
  assumes "distinct is"
    and "\<And>i. i \<in> set is \<Longrightarrow> i < length os \<and> i < length ms \<and> i < length ls"
    and "\<And>i. i \<in> set is \<Longrightarrow> tile_body (qs ! i) (ms ! i) (ls ! i) (os ! i) kb vb = Inr (T i)"
  shows "inner_loop qs kb vb is (os, ms, ls)
     = Inr (fold (\<lambda>i ys. ys[i := o_i_new (T i)]) is os,
            fold (\<lambda>i ys. ys[i := m_i_new (T i)]) is ms,
            fold (\<lambda>i ys. ys[i := l_i_new (T i)]) is ls)"
  using assms
proof (induction "is" arbitrary: os ms ls)
  case Nil
  show ?case by simp
next
  case (Cons i "is")
  have body: "tile_body (qs ! i) (ms ! i) (ls ! i) (os ! i) kb vb = Inr (T i)"
    using Cons.prems(3) by simp
  have rest: "inner_loop qs kb vb is
        (os[i := o_i_new (T i)], ms[i := m_i_new (T i)], ls[i := l_i_new (T i)])
     = Inr (fold (\<lambda>i ys. ys[i := o_i_new (T i)]) is (os[i := o_i_new (T i)]),
            fold (\<lambda>i ys. ys[i := m_i_new (T i)]) is (ms[i := m_i_new (T i)]),
            fold (\<lambda>i ys. ys[i := l_i_new (T i)]) is (ls[i := l_i_new (T i)]))"
  proof (rule Cons.IH)
    show "distinct is" using Cons.prems(1) by simp
  next
    fix k assume "k \<in> set is"
    then show "k < length (os[i := o_i_new (T i)]) \<and> k < length (ms[i := m_i_new (T i)])
        \<and> k < length (ls[i := l_i_new (T i)])"
      using Cons.prems(2)[of k] by simp
  next
    fix k assume k: "k \<in> set is"
    then have "k \<noteq> i" using Cons.prems(1) by auto
    then show "tile_body (qs ! k) (ms[i := m_i_new (T i)] ! k) (ls[i := l_i_new (T i)] ! k)
        (os[i := o_i_new (T i)] ! k) kb vb = Inr (T k)"
      using Cons.prems(3)[of k] k by simp
  qed
  show ?case by (simp add: body rest)
qed

lemma inner_loop_all:
  assumes "length os = n" "length ms = n" "length ls = n"
    and "\<And>i. i < n \<Longrightarrow> tile_body (qs ! i) (ms ! i) (ls ! i) (os ! i) kb vb = Inr (T i)"
  shows "inner_loop qs kb vb [0..<n] (os, ms, ls)
     = Inr (map (\<lambda>i. o_i_new (T i)) [0..<n], map (\<lambda>i. m_i_new (T i)) [0..<n],
            map (\<lambda>i. l_i_new (T i)) [0..<n])"
proof -
  have "inner_loop qs kb vb [0..<n] (os, ms, ls)
     = Inr (fold (\<lambda>i ys. ys[i := o_i_new (T i)]) [0..<n] os,
            fold (\<lambda>i ys. ys[i := m_i_new (T i)]) [0..<n] ms,
            fold (\<lambda>i ys. ys[i := l_i_new (T i)]) [0..<n] ls)"
    using assms by (intro inner_loop_fold) simp_all
  then show ?thesis using assms(1-3) by (simp add: fold_update_all)
qed

lemma inner_loop_all_ex:
  assumes len: "length os = n" "length ms = n" "length ls = n"
    and ex: "\<And>i. i < n \<Longrightarrow> \<exists>T. tile_body (qs ! i) (ms ! i) (ls ! i) (os ! i) kb vb = Inr T
          \<and> o_i_new T = O' i \<and> m_i_new T = M' i \<and> l_i_new T = L' i"
  shows "inner_loop qs kb vb [0..<n] (os, ms, ls)
     = Inr (map O' [0..<n], map M' [0..<n], map L' [0..<n])"
proof -
  define T where "T i = projr (tile_body (qs ! i) (ms ! i) (ls ! i) (os ! i) kb vb)" for i
  have T: "tile_body (qs ! i) (ms ! i) (ls ! i) (os ! i) kb vb = Inr (T i)
      \<and> o_i_new (T i) = O' i \<and> m_i_new (T i) = M' i \<and> l_i_new (T i) = L' i" if i: "i < n" for i
  proof -
    obtain T' where T': "tile_body (qs ! i) (ms ! i) (ls ! i) (os ! i) kb vb = Inr T'"
        "o_i_new T' = O' i" "m_i_new T' = M' i" "l_i_new T' = L' i"
      using ex[OF i] by blast
    have "T i = T'" by (simp add: T_def T'(1))
    then show ?thesis using T' by simp
  qed
  have "inner_loop qs kb vb [0..<n] (os, ms, ls)
     = Inr (map (\<lambda>i. o_i_new (T i)) [0..<n], map (\<lambda>i. m_i_new (T i)) [0..<n],
            map (\<lambda>i. l_i_new (T i)) [0..<n])"
    using len T by (intro inner_loop_all) simp_all
  moreover have "map (\<lambda>i. o_i_new (T i)) [0..<n] = map O' [0..<n]"
      "map (\<lambda>i. m_i_new (T i)) [0..<n] = map M' [0..<n]"
      "map (\<lambda>i. l_i_new (T i)) [0..<n] = map L' [0..<n]"
    using T by simp_all
  ultimately show ?thesis by simp
qed

lemma outer_loop_append:
  "outer_loop qs ks vs nq (js @ [j]) st
     = bind_err (outer_loop qs ks vs nq js st) (inner_loop qs (ks ! j) (vs ! j) [0..<nq])"
  by (induction js arbitrary: st) (simp_all split: sum.splits)

lemma outer_loop_levels:
  assumes "\<And>j. j < nk \<Longrightarrow> inner_loop qs (ks ! j) (vs ! j) [0..<nq] (ST j) = Inr (ST (Suc j))"
  shows "outer_loop qs ks vs nq [0..<nk] (ST 0) = Inr (ST nk)"
  using assms
proof (induction nk)
  case 0
  show ?case by simp
next
  case (Suc nk)
  have "outer_loop qs ks vs nq [0..<nk] (ST 0) = Inr (ST nk)"
    using Suc.prems by (intro Suc.IH) simp
  then show ?case using Suc.prems[of nk] by (simp add: outer_loop_append)
qed

lemma concat_blocks:
  "concat (map (\<lambda>i. map (\<lambda>a. g (i * b + a)) [0..<b]) [0..<n]) = map g [0..<n * b]"
proof (induction n)
  case 0
  show ?case by simp
next
  case (Suc n)
  have "map g [n * b..<n * b + b] = map (\<lambda>a. g (n * b + a)) [0..<b]"
  proof -
    have "[n * b..<n * b + b] = map (\<lambda>a. a + n * b) [0..<b]"
      by (simp add: map_add_upt add.commute)
    then show ?thesis by (simp add: comp_def add.commute)
  qed
  moreover have "[0..<Suc n * b] = [0..<n * b] @ [n * b..<n * b + b]"
    using upt_add_eq_append[of 0 "n * b" b] by (simp add: add.commute)
  ultimately show ?case using Suc.IH by simp
qed

lemma np_concatenate_blocks:
  assumes "0 < n"
  shows "np_concatenate (map (\<lambda>i. tabulate2 b d (\<lambda>a t. f (i * b + a) t)) [0..<n])
     = Inr (tabulate2 (n * b) d f)"
proof -
  let ?blocks = "map (\<lambda>i. tabulate2 b d (\<lambda>a t. f (i * b + a) t)) [0..<n]"
  obtain x xs where xs: "?blocks = x # xs"
    using assms by (cases ?blocks) simp_all
  have "list_all (\<lambda>y. shape1 y = d) ?blocks"
    by (simp add: list_all_iff)
  then have x: "shape1 x = d" and rest': "list_all (\<lambda>y. shape1 y = d) xs"
    unfolding xs by simp_all
  have rest: "list_all (\<lambda>y. shape1 y = shape1 x) xs"
    using rest' by (simp only: x)
  have sh0: "sum_list (map shape0 ?blocks) = n * b"
    by (simp add: comp_def sum_list_triv)
  have dat: "concat (map data ?blocks) = map (\<lambda>r. map (\<lambda>t. f r t) [0..<d]) [0..<n * b]"
    using concat_blocks[of "\<lambda>r. map (\<lambda>t. f r t) [0..<d]" b n]
    by (simp add: comp_def tabulate2_def)
  have "np_concatenate ?blocks
      = Inr \<lparr>shape0 = sum_list (map shape0 ?blocks), shape1 = shape1 x, data = concat (map data ?blocks)\<rparr>"
    unfolding np_concatenate_def xs using rest by simp
  then have "np_concatenate ?blocks
      = Inr \<lparr>shape0 = n * b, shape1 = d, data = map (\<lambda>r. map (\<lambda>t. f r t) [0..<d]) [0..<n * b]\<rparr>"
    by (simp only: sh0 x dat)
  then show ?thesis by (simp only: tabulate2_def)
qed

subsection \<open>The state of the blocks after each column block\<close>

lemma lowfin_mlev [simp]: "lowfin (mlev srow n)"
  by (simp add: mlev_def)

lemma tile_body_level:
  assumes c: "0 < bc"
  shows "\<exists>T. tile_body (rmat br d (\<lambda>a t. Q (i * br + a) t)) (m_block_at Q K d br n i)
            (l_block_at Q K d br n i) (o_block_at Q K V d br n i)
            (rmat bc d (\<lambda>c u. K (n + c) u)) (rmat bc d (\<lambda>c t. V (n + c) t)) = Inr T
          \<and> o_i_new T = o_block_at Q K V d br (n + bc) i
          \<and> m_i_new T = m_block_at Q K d br (n + bc) i
          \<and> l_i_new T = l_block_at Q K d br (n + bc) i"
proof -
  let ?S = "\<lambda>a. score Q K d (i * br + a)"
  have S: "(\<lambda>a t. \<Sum>u<d. Q (i * br + a) u * K (n + t) u) = (\<lambda>a t. ?S a (n + t))"
    by (simp add: score_def)
  have S': "(\<lambda>t. \<Sum>u<d. Q (i * br + a) u * K (n + t) u) = (\<lambda>t. ?S a (n + t))" for a
    by (simp add: score_def)
  note body = tile_body_real[OF c, where mval="\<lambda>a. mlev (?S a) n" and lv="\<lambda>a. Zsum (?S a) n"
      and r=br and d=d and Qb="\<lambda>a t. Q (i * br + a) t" and ov="\<lambda>a t. o_level Q K V d n (i * br + a) t"
      and Kb="\<lambda>c u. K (n + c) u" and Vb="\<lambda>c t. V (n + c) t", OF lowfin_mlev, unfolded S S']
  have m: "rmat br 1 (\<lambda>a j. tile_m (mlev (?S a) n) (\<lambda>t. ?S a (n + t)) bc)
      = m_block_at Q K d br (n + bc) i"
  proof -
    have "Fin (tile_m (mlev (?S a) n) (\<lambda>t. ?S a (n + t)) bc) = mlev (?S a) (n + bc)" for a
      using c tile_m_level[OF c, where srow="?S a" and n=n] by (simp add: mlev_def)
    then show ?thesis
      by (simp only: m_block_at_def rmat_def)
  qed
  have l: "rmat br 1 (\<lambda>a j. tile_l (mlev (?S a) n) (Zsum (?S a) n) (\<lambda>t. ?S a (n + t)) bc)
      = l_block_at Q K d br (n + bc) i"
    unfolding l_block_at_def
  proof (rule rmat_cong)
    fix a j
    show "tile_l (mlev (?S a) n) (Zsum (?S a) n) (\<lambda>t. ?S a (n + t)) bc = Zsum (?S a) (n + bc)"
      using tile_l_level[OF c, where srow="?S a" and n=n] by simp
  qed simp_all
  have o: "tabulate2 br d (\<lambda>a j. fdiv (Fin (tile_o_num (mlev (?S a) n) (Zsum (?S a) n)
               (o_level Q K V d n (i * br + a) j) (\<lambda>t. ?S a (n + t)) (\<lambda>t. V (n + t) j) bc))
               (Fin (tile_l (mlev (?S a) n) (Zsum (?S a) n) (\<lambda>t. ?S a (n + t)) bc)))
      = o_block_at Q K V d br (n + bc) i"
    unfolding o_block_at_def rmat_def
  proof (rule tabulate2_cong)
    fix a j
    have "tile_l (mlev (?S a) n) (Zsum (?S a) n) (\<lambda>t. ?S a (n + t)) bc \<noteq> 0"
      using tile_l_pos[OF c Zsum_nonneg, of "mlev (?S a) n" "?S a" n "\<lambda>t. ?S a (n + t)"] by simp
    moreover have "tile_o (mlev (?S a) n) (Zsum (?S a) n) (o_level Q K V d n (i * br + a) j)
               (\<lambda>t. ?S a (n + t)) (\<lambda>t. V (n + t) j) bc = o_level Q K V d (n + bc) (i * br + a) j"
      unfolding o_level_def using tile_o_level[OF c, where srow="?S a" and vcol="\<lambda>c. V c j" and n=n] by simp
    ultimately show "fdiv (Fin (tile_o_num (mlev (?S a) n) (Zsum (?S a) n)
               (o_level Q K V d n (i * br + a) j) (\<lambda>t. ?S a (n + t)) (\<lambda>t. V (n + t) j) bc))
               (Fin (tile_l (mlev (?S a) n) (Zsum (?S a) n) (\<lambda>t. ?S a (n + t)) bc))
        = Fin (o_level Q K V d (n + bc) (i * br + a) j)"
      by (simp add: tile_o_def)
  qed simp_all
  show ?thesis
    unfolding m_block_at_def[of Q K d br n] l_block_at_def[of Q K d br n] o_block_at_def[of Q K V d br n]
    by (simp only: body tile_locals.simps m l o) simp
qed

lemma q_blocks_rmat:
  assumes "0 < br" "nq * br \<le> n"
  shows "map (\<lambda>i. slice_rows (rmat n d F) i (i + nat (int br))) (range0 (nq * br) (int br))
     = map (\<lambda>i. rmat br d (\<lambda>a t. F (i * br + a) t)) [0..<nq]"
proof -
  have "slice_rows (rmat n d F) (i * br) (i * br + br) = rmat br d (\<lambda>a t. F (i * br + a) t)"
    if "i < nq" for i
  proof -
    have "Suc i * br \<le> nq * br" using that by (intro mult_le_mono1) simp
    then have "i * br + br \<le> n" using assms(2) by (simp add: add.commute)
    then show ?thesis by (simp add: slice_rows_rmat)
  qed
  then show ?thesis using assms(1) by (simp add: range0_blocks comp_def)
qed

lemma init_blocks:
  assumes "0 < br"
  shows "map (\<lambda>i. slice_rows (tabulate2 (nq * br) d (\<lambda>i j. x)) i (i + nat (int br)))
           (range0 (nq * br) (int br))
     = map (\<lambda>i. tabulate2 br d (\<lambda>a t. x)) [0..<nq]"
proof -
  have "slice_rows (tabulate2 (nq * br) d (\<lambda>i j. x)) (i * br) (i * br + br) = tabulate2 br d (\<lambda>a t. x)"
    if "i < nq" for i
  proof -
    have "Suc i * br \<le> nq * br" using that by (intro mult_le_mono1) simp
    then have "i * br + br \<le> nq * br" by (simp add: add.commute)
    then show ?thesis by (simp add: slice_rows_tabulate2)
  qed
  then show ?thesis using assms(1) by (simp add: range0_blocks comp_def)
qed

lemma state_at_0:
  "state_at Q K V d br nq 0
     = (map (\<lambda>i. tabulate2 br d (\<lambda>a t. Fin 0)) [0..<nq],
        map (\<lambda>i. tabulate2 br 1 (\<lambda>a t. NInf)) [0..<nq],
        map (\<lambda>i. tabulate2 br 1 (\<lambda>a t. Fin 0)) [0..<nq])"
  by (simp add: state_at_def o_block_at_def m_block_at_def l_block_at_def rmat_def o_level_def
        Usum_def Zsum_def mlev_def)

lemma inner_loop_level:
  assumes c: "0 < bc"
  shows "inner_loop (map (\<lambda>i. rmat br d (\<lambda>a t. Q (i * br + a) t)) [0..<nq])
           (rmat bc d (\<lambda>c u. K (n + c) u)) (rmat bc d (\<lambda>c t. V (n + c) t)) [0..<nq]
           (state_at Q K V d br nq n)
     = Inr (state_at Q K V d br nq (n + bc))"
proof -
  let ?qs = "map (\<lambda>i. rmat br d (\<lambda>a t. Q (i * br + a) t)) [0..<nq]"
  let ?kb = "rmat bc d (\<lambda>c u. K (n + c) u)"
  let ?vb = "rmat bc d (\<lambda>c t. V (n + c) t)"
  let ?os = "map (o_block_at Q K V d br n) [0..<nq]"
  let ?ms = "map (m_block_at Q K d br n) [0..<nq]"
  let ?ls = "map (l_block_at Q K d br n) [0..<nq]"
  have "inner_loop ?qs ?kb ?vb [0..<nq] (?os, ?ms, ?ls)
     = Inr (map (o_block_at Q K V d br (n + bc)) [0..<nq], map (m_block_at Q K d br (n + bc)) [0..<nq],
            map (l_block_at Q K d br (n + bc)) [0..<nq])"
  proof (rule inner_loop_all_ex)
    fix i assume i: "i < nq"
    have nth: "?qs ! i = rmat br d (\<lambda>a t. Q (i * br + a) t)" "?ms ! i = m_block_at Q K d br n i"
        "?ls ! i = l_block_at Q K d br n i" "?os ! i = o_block_at Q K V d br n i"
      using i by simp_all
    show "\<exists>T. tile_body (?qs ! i) (?ms ! i) (?ls ! i) (?os ! i) ?kb ?vb = Inr T
          \<and> o_i_new T = o_block_at Q K V d br (n + bc) i
          \<and> m_i_new T = m_block_at Q K d br (n + bc) i
          \<and> l_i_new T = l_block_at Q K d br (n + bc) i"
      unfolding nth by (rule tile_body_level[OF c])
  qed simp_all
  then show ?thesis by (simp only: state_at_def)
qed

lemma flash_loops_closed:
  assumes br: "0 < br" and bc: "0 < bc" and N: "nq * br = nk * bc"
    and Mk: "nq * br \<le> Mk" and Mv: "nq * br \<le> Mv"
  shows "flash_loops (rmat (nq * br) d Q) (rmat Mk d K) (rmat Mv d V) (int br) (int bc)
     = Inr (state_at Q K V d br nq (nq * br))"
proof -
  let ?qs = "map (\<lambda>i. rmat br d (\<lambda>a t. Q (i * br + a) t)) [0..<nq]"
  let ?ks = "map (\<lambda>j. rmat bc d (\<lambda>c u. K (j * bc + c) u)) [0..<nk]"
  let ?vs = "map (\<lambda>j. rmat bc d (\<lambda>c u. V (j * bc + c) u)) [0..<nk]"
  have qs: "map (\<lambda>i. slice_rows (rmat (nq * br) d Q) i (i + nat (int br))) (range0 (nq * br) (int br)) = ?qs"
    using br by (intro q_blocks_rmat) simp_all
  have ks: "map (\<lambda>i. slice_rows (rmat Mk d K) i (i + nat (int bc))) (range0 (nq * br) (int bc)) = ?ks"
    unfolding N using bc Mk N by (intro q_blocks_rmat) simp_all
  have vs: "map (\<lambda>i. slice_rows (rmat Mv d V) i (i + nat (int bc))) (range0 (nq * br) (int bc)) = ?vs"
    unfolding N using bc Mv N by (intro q_blocks_rmat) simp_all
  have step: "inner_loop ?qs (?ks ! j) (?vs ! j) [0..<nq] (state_at Q K V d br nq (j * bc))
      = Inr (state_at Q K V d br nq (Suc j * bc))" if "j < nk" for j
    using that inner_loop_level[OF bc, of br d Q nq K "j * bc" V] by (simp add: add.commute)
  have "outer_loop ?qs ?ks ?vs nq [0..<nk] (state_at Q K V d br nq (0 * bc))
      = Inr (state_at Q K V d br nq (nk * bc))"
    using step by (rule outer_loop_levels[where ST="\<lambda>j. state_at Q K V d br nq (j * bc)"])
  then have "outer_loop ?qs ?ks ?vs nq [0..<nk] (state_at Q K V d br nq 0)
      = Inr (state_at Q K V d br nq (nq * br))"
    by (simp add: N)
  then show ?thesis
    unfolding flash_loops_def Let_def np_zeros_like_def np_zeros_def np_full_def rmat_sel
    by (simp only: qs ks vs init_blocks[OF br] state_at_0 length_map length_upt diff_zero)
qed

lemma flash_asserts_pass:
  assumes "0 < br" "0 < bc" "bc dvd nq * br" "bc dvd Mk" "bc dvd Mv"
  shows "flash_asserts (rmat (nq * br) d Q) (rmat Mk d K) (rmat Mv d V) (int br) (int bc) = None"
proof -
  have "int (nq * br) mod int br = 0" by simp
  moreover have "int (nq * br) mod int bc = 0" "int Mk mod int bc = 0" "int Mv mod int bc = 0"
    using assms(3-5) by (simp_all only: int_dvd_int_iff[symmetric] mod_eq_0_iff_dvd)
  ultimately show ?thesis using assms(1,2) by (simp add: flash_asserts_def)
qed

lemma flash_attention_closed:
  assumes br: "0 < br" and bc: "0 < bc" and nq: "0 < nq" and N: "nq * br = nk * bc"
    and Mk: "nq * br \<le> Mk" and Mv: "nq * br \<le> Mv" and dk: "bc dvd Mk" and dv: "bc dvd Mv"
  shows "flash_attention (rmat (nq * br) d Q) (rmat Mk d K) (rmat Mv d V) (int br) (int bc)
     = Inr (rmat (nq * br) d (o_level Q K V d (nq * br)))"
proof -
  have "bc dvd nq * br" unfolding N by simp
  then have a: "flash_asserts (rmat (nq * br) d Q) (rmat Mk d K) (rmat Mv d V) (int br) (int bc) = None"
    using br bc dk dv by (intro flash_asserts_pass)
  have "np_concatenate (map (o_block_at Q K V d br (nq * br)) [0..<nq])
      = Inr (rmat (nq * br) d (o_level Q K V d (nq * br)))"
    unfolding o_block_at_def rmat_def
    using np_concatenate_blocks[OF nq, of br d "\<lambda>r t. Fin (o_level Q K V d (nq * br) r t)"] by simp
  then show ?thesis
    unfolding flash_attention_def a
    by (simp add: flash_loops_closed[OF br bc N Mk Mv] state_at_def)
qed

subsection \<open>Both attention routines in closed form\<close>

lemma real_valued_rmat [simp]: "real_valued (rmat r c F)"
  by (simp add: real_valued_def rmat_def tabulate2_def list_all_iff)

lemma wf_rmat [simp]: "wf_array (rmat r c F)"
  by (simp add: rmat_def)

lemma standard_attention_closed:
  assumes M: "0 < M"
  shows "standard_attention (rmat N d Q) (rmat M d K) (rmat M d V)
     = Inr (rmat N d (o_level Q K V d M))"
proof -
  let ?S = "score Q K d"
  have S: "?S = (\<lambda>i j. \<Sum>t<d. Q i t * K j t)"
    by (intro ext) (simp add: score_def)
  have s1: "np_matmul (rmat N d Q) (transpose_T (rmat M d K)) = Inr (rmat N M ?S)"
    unfolding S by (simp add: transpose_T_rmat np_matmul_rmat)
  have s2: "np_max_axis1 (rmat N M ?S) = Inr (rmat N 1 (\<lambda>r j. tile_mloc (?S r) M))"
    using M by (simp add: np_max_axis1_rmat tile_mloc_def)
  have s3: "np_sub (rmat N M ?S) (rmat N 1 (\<lambda>r j. tile_mloc (?S r) M))
      = Inr (rmat N M (\<lambda>r t. ?S r t - tile_mloc (?S r) M))"
    by (simp add: np_sub_def rmat_def broadcast_mat_col)
  have s4: "np_sum_axis1 (rmat N M (\<lambda>r t. exp (?S r t - tile_mloc (?S r) M)))
      = rmat N 1 (\<lambda>r j. Zsum (?S r) M)"
    by (simp add: np_sum_axis1_rmat Zsum_def)
  have nz: "\<And>r. Zsum (?S r) M \<noteq> 0"
    using Zsum_pos[OF M] by (simp add: less_imp_neq[THEN not_sym])
  have s5: "np_idiv (rmat N M (\<lambda>r t. exp (?S r t - tile_mloc (?S r) M))) (rmat N 1 (\<lambda>r j. Zsum (?S r) M))
      = Inr (rmat N M (\<lambda>r t. exp (?S r t - tile_mloc (?S r) M) / Zsum (?S r) M))"
    by (simp add: np_idiv_def np_div_def rmat_def broadcast_mat_col nz)
  have s6: "np_matmul (rmat N M (\<lambda>r t. exp (?S r t - tile_mloc (?S r) M) / Zsum (?S r) M)) (rmat M d V)
      = Inr (rmat N d (o_level Q K V d M))"
  proof -
    have "o_level Q K V d M = (\<lambda>r j. \<Sum>t<M. exp (?S r t - tile_mloc (?S r) M) / Zsum (?S r) M * V t j)"
      by (intro ext) (simp add: o_level_def Usum_def sum_divide_distrib)
    then show ?thesis by (simp only: np_matmul_rmat)
  qed
  show ?thesis
    unfolding standard_attention_def
    by (simp only: s1 s2 s3 s4 s5 s6 bind_err_simps Let_def np_exp_rmat)
qed

lemma standard_attention_no_keys:
  assumes "shape1 q = shape1 k" "shape0 k = 0"
  shows "standard_attention q k v = Inl ValueError"
  using assms by (simp add: standard_attention_def np_matmul_def transpose_T_def np_max_axis1_def)

lemma range0_zero: "range0 0 b = []"
  by (simp add: range0_def)

lemma flash_attention_no_rows:
  assumes "shape0 q = 0" "flash_asserts q k v b_r b_c = None"
  shows "flash_attention q k v b_r b_c = Inl ValueError"
  using assms
  by (simp add: flash_attention_def flash_loops_def Let_def range0_zero np_concatenate_def)

lemma flash_asserts_None_iff:
  "flash_asserts q k v b_r b_c = None \<longleftrightarrow>
     b_r \<noteq> 0 \<and> b_c \<noteq> 0 \<and> b_r dvd int (shape0 q) \<and> b_c dvd int (shape0 k) \<and> b_c dvd int (shape0 v)
     \<and> shape1 q = shape1 k \<and> shape1 k = shape1 v"
  by (auto simp: flash_asserts_def mod_eq_0_iff_dvd)

text \<open>The result of the tiled routine on real-valued inputs, for keys and values of at least N rows.\<close>

lemma flash_attention_real:
  assumes wf: "wf_array q" "wf_array k" "wf_array v"
    and rv: "real_valued q" "real_valued k" "real_valued v"
    and cols: "shape1 k = shape1 q" "shape1 v = shape1 q"
    and rows: "shape0 q \<le> shape0 k" "shape0 q \<le> shape0 v"
    and pos: "0 < b_r" "0 < b_c"
    and dv: "b_r dvd int (shape0 q)" "b_c dvd int (shape0 q)" "b_c dvd int (shape0 k)" "b_c dvd int (shape0 v)"
  shows "flash_attention q k v b_r b_c =
     (if shape0 q = 0 then Inl ValueError
      else Inr (rmat (shape0 q) (shape1 q) (o_level (ritem q) (ritem k) (ritem v) (shape1 q) (shape0 q))))"
proof (cases "shape0 q = 0")
  case True
  have "flash_asserts q k v b_r b_c = None"
    using pos dv cols by (simp add: flash_asserts_None_iff)
  then show ?thesis using True by (simp add: flash_attention_no_rows)
next
  case False
  define br bc where "br = nat b_r" and "bc = nat b_c"
  have b: "b_r = int br" "b_c = int bc" "0 < br" "0 < bc" using pos by (simp_all add: br_def bc_def)
  have "br dvd shape0 q" "bc dvd shape0 q"
    using dv(1,2) unfolding b by (simp_all only: int_dvd_int_iff)
  then obtain nq nk where nq: "shape0 q = nq * br" and nk: "shape0 q = nk * bc"
    unfolding dvd_def by (metis mult.commute)
  have nq0: "0 < nq" using False nq by (cases nq) simp_all
  have dk: "bc dvd shape0 k" "bc dvd shape0 v" using dv(3,4) unfolding b by (simp_all add: int_dvd_int_iff)
  have q: "q = rmat (nq * br) (shape1 q) (ritem q)"
    using real_array_rmat[OF wf(1) rv(1)] by (simp add: nq)
  have k: "k = rmat (shape0 k) (shape1 q) (ritem k)"
    using real_array_rmat[OF wf(2) rv(2)] by (simp add: cols)
  have v: "v = rmat (shape0 v) (shape1 q) (ritem v)"
    using real_array_rmat[OF wf(3) rv(3)] by (simp add: cols)
  have "flash_attention (rmat (nq * br) (shape1 q) (ritem q)) (rmat (shape0 k) (shape1 q) (ritem k))
          (rmat (shape0 v) (shape1 q) (ritem v)) (int br) (int bc)
      = Inr (rmat (nq * br) (shape1 q) (o_level (ritem q) (ritem k) (ritem v) (shape1 q) (nq * br)))"
    using b(3,4) nq0 nk nq rows dk by (intro flash_attention_closed[where nk=nk]) simp_all
  then show ?thesis using False q k v b(1,2) nq by simp
qed

lemma standard_attention_real:
  assumes wf: "wf_array q" "wf_array k" "wf_array v"
    and rv: "real_valued q" "real_valued k" "real_valued v"
    and cols: "shape1 k = shape1 q" "shape1 v = shape1 q"
    and rows: "shape0 v = shape0 k"
  shows "standard_attention q k v =
     (if shape0 k = 0 then Inl ValueError
      else Inr (rmat (shape0 q) (shape1 q) (o_level (ritem q) (ritem k) (ritem v) (shape1 q) (shape0 k))))"
proof (cases "shape0 k = 0")
  case True
  then show ?thesis using cols by (simp add: standard_attention_no_keys)
next
  case False
  have q: "q = rmat (shape0 q) (shape1 q) (ritem q)"
    using real_array_rmat[OF wf(1) rv(1)] by simp
  have k: "k = rmat (shape0 k) (shape1 q) (ritem k)"
    using real_array_rmat[OF wf(2) rv(2)] by (simp add: cols)
  have v: "v = rmat (shape0 k) (shape1 q) (ritem v)"
    using real_array_rmat[OF wf(3) rv(3)] by (simp add: cols rows)
  have "standard_attention (rmat (shape0 q) (shape1 q) (ritem q)) (rmat (shape0 k) (shape1 q) (ritem k))
          (rmat (shape0 k) (shape1 q) (ritem v))
      = Inr (rmat (shape0 q) (shape1 q) (o_level (ritem q) (ritem k) (ritem v) (shape1 q) (shape0 k)))"
    using False by (intro standard_attention_closed) simp
  then show ?thesis using False q k v by simp
qed

subsection \<open>The range of \<open>math.exp\<close>\<close>









subsection \<open>The softmax routines on real vectors\<close>













text \<open>
  The total of \<open>safe_softmax\<close>, and of \<open>online_softmax\<close> after each element, is a sum
  of exponentials of differences to the maximum: it lies between 1 and the length of the
  list.
\<close>

lemma shifted_total_bounds:
  assumes "M \<in> set xs" and "\<And>x. x \<in> set xs \<Longrightarrow> x \<le> M"
  shows "1 \<le> (\<Sum>x\<leftarrow>xs. exp (x - M)) \<and> (\<Sum>x\<leftarrow>xs. exp (x - M)) \<le> real (length xs)"
proof
  have "exp (M - M) \<in> set (map (\<lambda>x. exp (x - M)) xs)" using assms(1) by (simp only: set_map) (rule imageI)
  then have "exp (M - M) \<le> sum_list (map (\<lambda>x. exp (x - M)) xs)"
    by (intro member_le_sum_list) auto
  then show "1 \<le> (\<Sum>x\<leftarrow>xs. exp (x - M))" by simp
  show "(\<Sum>x\<leftarrow>xs. exp (x - M)) \<le> real (length xs)"
    using assms(2)
  proof (induction xs)
    case Nil
    show ?case by simp
  next
    case (Cons a as)
    have "exp (a - M) \<le> 1" using Cons.prems by simp
    moreover have "(\<Sum>x\<leftarrow>as. exp (x - M)) \<le> real (length as)"
      using Cons.prems by (intro Cons.IH) simp
    ultimately have "exp (a - M) + (\<Sum>x\<leftarrow>as. exp (x - M)) \<le> 1 + real (length as)"
      by (rule add_mono)
    then show ?case by simp
  qed
qed











subsection \<open>The claims\<close>







text \<open>
  Claim C1. For real-valued Q, K, V of one shape N x d and positive tile sizes b_r, b_c
  that divide N, \<open>flash_attention\<close> and \<open>standard_attention\<close> give the same result;
  for N > 0 that result is an N x d matrix of reals. (For N = 0 both raise ValueError:
  \<open>np.concatenate\<close> of no blocks, \<open>np.max\<close> over an empty axis.)
\<close>

theorem flash_equals_standard:
  assumes "wf_array q" and "wf_array k" and "wf_array v"
    and "real_valued q" and "real_valued k" and "real_valued v"
    and "shape0 k = shape0 q" and "shape0 v = shape0 q"
    and "shape1 k = shape1 q" and "shape1 v = shape1 q"
    and "0 < b_r" and "0 < b_c"
    and "b_r dvd int (shape0 q)" and "b_c dvd int (shape0 q)"
  shows "flash_attention q k v b_r b_c = standard_attention q k v
     \<and> (0 < shape0 q \<longrightarrow>
          (\<exists>out. standard_attention q k v = Inr out \<and> wf_array out \<and> real_valued out
             \<and> shape0 out = shape0 q \<and> shape1 out = shape1 q))"
proof -
  have f: "flash_attention q k v b_r b_c =
     (if shape0 q = 0 then Inl ValueError
      else Inr (rmat (shape0 q) (shape1 q) (o_level (ritem q) (ritem k) (ritem v) (shape1 q) (shape0 q))))"
    using assms by (intro flash_attention_real) simp_all
  have s: "standard_attention q k v =
     (if shape0 k = 0 then Inl ValueError
      else Inr (rmat (shape0 q) (shape1 q) (o_level (ritem q) (ritem k) (ritem v) (shape1 q) (shape0 k))))"
    using assms by (intro standard_attention_real) simp_all
  show ?thesis unfolding f s using assms(7) by simp
qed

theorem flash_equals_standard_witness:
  "(let q = \<lparr>shape0 = 2, shape1 = 1, data = [[Fin 0], [Fin 0]]\<rparr>;
        k = \<lparr>shape0 = 2, shape1 = 1, data = [[Fin 0], [Fin 0]]\<rparr>;
        v = \<lparr>shape0 = 2, shape1 = 1, data = [[Fin 1], [Fin 2]]\<rparr>
    in wf_array q \<and> wf_array k \<and> wf_array v \<and> real_valued q \<and> real_valued k \<and> real_valued v
       \<and> shape0 k = shape0 q \<and> shape0 v = shape0 q \<and> shape1 k = shape1 q \<and> shape1 v = shape1 q
       \<and> (0::int) < 1 \<and> (0::int) < 2 \<and> 1 dvd int (shape0 q) \<and> 2 dvd int (shape0 q)
       \<and> flash_attention q k v 1 2 = standard_attention q k v
       \<and> (\<exists>out. standard_attention q k v = Inr out \<and> wf_array out \<and> real_valued out
             \<and> shape0 out = shape0 q \<and> shape1 out = shape1 q))"
proof -
  let ?q = "\<lparr>shape0 = 2, shape1 = 1, data = [[Fin 0], [Fin 0]]\<rparr>"
  let ?v = "\<lparr>shape0 = 2, shape1 = 1, data = [[Fin 1], [Fin 2]]\<rparr>"
  have wf: "wf_array ?q" "wf_array ?v" by (simp_all add: wf_array_def)
  have rv: "real_valued ?q" "real_valued ?v" by (simp_all add: real_valued_def)
  have dv: "(1::int) dvd int (shape0 ?q)" "(2::int) dvd int (shape0 ?q)" by simp_all
  have "flash_attention ?q ?q ?v 1 2 = standard_attention ?q ?q ?v
     \<and> (0 < shape0 ?q \<longrightarrow>
          (\<exists>out. standard_attention ?q ?q ?v = Inr out \<and> wf_array out \<and> real_valued out
             \<and> shape0 out = shape0 ?q \<and> shape1 out = shape1 ?q))"
    using wf rv dv by (intro flash_equals_standard) simp_all
  then show ?thesis unfolding Let_def using wf rv dv by simp
qed

lemma flash_attention_fails:
  assumes "flash_asserts q k v b_r b_c = Some e"
  shows "flash_attention q k v b_r b_c = Inl e"
  using assms by (simp add: flash_attention_def)

text \<open>
  Claim C7. For fixed real-valued Q, K, V of one shape N x d the result of
  \<open>flash_attention\<close> does not depend on the tile sizes: any two pairs of positive tile
  sizes that divide N give equal results (the single tile b_r = b_c = N is one such pair).
\<close>

theorem tile_size_invariance:
  assumes "wf_array q" and "wf_array k" and "wf_array v"
    and "real_valued q" and "real_valued k" and "real_valued v"
    and "shape0 k = shape0 q" and "shape0 v = shape0 q"
    and "shape1 k = shape1 q" and "shape1 v = shape1 q"
    and "0 < b_r" and "0 < b_c" and "b_r dvd int (shape0 q)" and "b_c dvd int (shape0 q)"
    and "0 < b_r'" and "0 < b_c'" and "b_r' dvd int (shape0 q)" and "b_c' dvd int (shape0 q)"
  shows "flash_attention q k v b_r b_c = flash_attention q k v b_r' b_c'"
proof -
  have "flash_attention q k v b_r b_c =
     (if shape0 q = 0 then Inl ValueError
      else Inr (rmat (shape0 q) (shape1 q) (o_level (ritem q) (ritem k) (ritem v) (shape1 q) (shape0 q))))"
    using assms(1-14) by (intro flash_attention_real) simp_all
  moreover have "flash_attention q k v b_r' b_c' =
     (if shape0 q = 0 then Inl ValueError
      else Inr (rmat (shape0 q) (shape1 q) (o_level (ritem q) (ritem k) (ritem v) (shape1 q) (shape0 q))))"
    using assms(1-10,15-18) by (intro flash_attention_real) simp_all
  ultimately show ?thesis by simp
qed

theorem tile_size_invariance_witness:
  "(let q = \<lparr>shape0 = 2, shape1 = 1, data = [[Fin 0], [Fin 0]]\<rparr>;
        k = \<lparr>shape0 = 2, shape1 = 1, data = [[Fin 0], [Fin 0]]\<rparr>;
        v = \<lparr>shape0 = 2, shape1 = 1, data = [[Fin 1], [Fin 2]]\<rparr>
    in wf_array q \<and> wf_array k \<and> wf_array v \<and> real_valued q \<and> real_valued k \<and> real_valued v
       \<and> shape0 k = shape0 q \<and> shape0 v = shape0 q \<and> shape1 k = shape1 q \<and> shape1 v = shape1 q
       \<and> (0::int) < 1 \<and> (0::int) < 2 \<and> 1 dvd int (shape0 q) \<and> 2 dvd int (shape0 q)
       \<and> flash_attention q k v 1 1 = flash_attention q k v 2 2)"
proof -
  let ?q = "\<lparr>shape0 = 2, shape1 = 1, data = [[Fin 0], [Fin 0]]\<rparr>"
  let ?v = "\<lparr>shape0 = 2, shape1 = 1, data = [[Fin 1], [Fin 2]]\<rparr>"
  have wf: "wf_array ?q" "wf_array ?v" by (simp_all add: wf_array_def)
  have rv: "real_valued ?q" "real_valued ?v" by (simp_all add: real_valued_def)
  have dv: "(1::int) dvd int (shape0 ?q)" "(2::int) dvd int (shape0 ?q)" by simp_all
  have "flash_attention ?q ?q ?v 1 1 = flash_attention ?q ?q ?v 2 2"
    using wf rv dv by (intro tile_size_invariance) simp_all
  then show ?thesis unfolding Let_def using wf rv dv by simp
qed

text \<open>
  Claim C6. When b_r does not divide the row count of Q, or b_c does not divide the row
  count of K or of V, \<open>flash_attention\<close> fails in its divisibility assertions, before the
  blocks are built and whatever the elements are: the error is the one of the first
  assertion that does not hold, and a tile size 0 makes \<open>%\<close> in that assertion raise
  ZeroDivisionError.
\<close>

theorem tile_size_error:
  assumes "\<not> b_r dvd int (shape0 q) \<or> \<not> b_c dvd int (shape0 k) \<or> \<not> b_c dvd int (shape0 v)"
  shows "\<exists>e. flash_asserts q k v b_r b_c = Some e \<and> flash_attention q k v b_r b_c = Inl e
     \<and> e = (if b_r = 0 then ZeroDivisionError
             else if \<not> b_r dvd int (shape0 q)
               then AssertionError ''the number of rows of q must be divisible by b_r''
             else if b_c = 0 then ZeroDivisionError
             else if \<not> b_c dvd int (shape0 k)
               then AssertionError ''the number of rows of k must be divisible by b_c''
             else AssertionError ''the number of rows of v must be divisible by b_c'')"
proof -
  let ?e = "if b_r = 0 then ZeroDivisionError
             else if \<not> b_r dvd int (shape0 q)
               then AssertionError ''the number of rows of q must be divisible by b_r''
             else if b_c = 0 then ZeroDivisionError
             else if \<not> b_c dvd int (shape0 k)
               then AssertionError ''the number of rows of k must be divisible by b_c''
             else AssertionError ''the number of rows of v must be divisible by b_c''"
  have a: "flash_asserts q k v b_r b_c = Some ?e"
    using assms unfolding flash_asserts_def mod_eq_0_iff_dvd by auto
  then have "flash_attention q k v b_r b_c = Inl ?e" by (rule flash_attention_fails)
  with a show ?thesis by blast
qed

theorem tile_size_error_witness:
  "(\<not> (2::int) dvd int (shape0 \<lparr>shape0 = 5, shape1 = 1, data = [[Fin 0], [Fin 0], [Fin 0], [Fin 0], [Fin 0]]\<rparr>))
   \<and> flash_attention \<lparr>shape0 = 5, shape1 = 1, data = [[Fin 0], [Fin 0], [Fin 0], [Fin 0], [Fin 0]]\<rparr>
        \<lparr>shape0 = 5, shape1 = 1, data = [[Fin 0], [Fin 0], [Fin 0], [Fin 0], [Fin 0]]\<rparr>
        \<lparr>shape0 = 5, shape1 = 1, data = [[Fin 0], [Fin 0], [Fin 0], [Fin 0], [Fin 0]]\<rparr> 2 1
      = Inl (AssertionError ''the number of rows of q must be divisible by b_r'')"
proof -
  let ?q = "\<lparr>shape0 = 5, shape1 = 1, data = [[Fin 0], [Fin 0], [Fin 0], [Fin 0], [Fin 0]]\<rparr>"
  have h: "\<not> (2::int) dvd int (shape0 ?q)" by simp
  then have "\<not> (2::int) dvd int (shape0 ?q) \<or> \<not> (1::int) dvd int (shape0 ?q) \<or> \<not> (1::int) dvd int (shape0 ?q)"
    by blast
  from tile_size_error[OF this] h show ?thesis by auto
qed

text \<open>
  Claim C2, as stated, fails: the assertions compare the column counts only. Here K has
  two rows and V has one, and \<open>flash_attention\<close> returns an output.
\<close>

theorem kv_rows_unchecked_counterexample:
  "shape0 \<lparr>shape0 = 2, shape1 = 1, data = [[Fin 0], [Fin 0]]\<rparr>
     \<noteq> shape0 \<lparr>shape0 = 1, shape1 = 1, data = [[Fin 1]]\<rparr>
   \<and> flash_attention \<lparr>shape0 = 1, shape1 = 1, data = [[Fin 0]]\<rparr>
        \<lparr>shape0 = 2, shape1 = 1, data = [[Fin 0], [Fin 0]]\<rparr>
        \<lparr>shape0 = 1, shape1 = 1, data = [[Fin 1]]\<rparr> 1 1
      = Inr \<lparr>shape0 = 1, shape1 = 1, data = [[Fin 1]]\<rparr>"
proof -
  have q: "\<lparr>shape0 = 1, shape1 = 1, data = [[Fin 0]]\<rparr> = rmat (1 * 1) 1 (\<lambda>i j. 0)"
    and k: "\<lparr>shape0 = 2, shape1 = 1, data = [[Fin 0], [Fin 0]]\<rparr> = rmat 2 1 (\<lambda>i j. 0)"
    and v: "\<lparr>shape0 = 1, shape1 = 1, data = [[Fin 1]]\<rparr> = rmat 1 1 (\<lambda>i j. 1)"
    by (simp_all add: rmat_def tabulate2_def upt_conv_Cons)
  have "flash_attention (rmat (1 * 1) 1 (\<lambda>i j. 0)) (rmat 2 1 (\<lambda>i j. 0)) (rmat 1 1 (\<lambda>i j. 1)) (int 1) (int 1)
      = Inr (rmat (1 * 1) 1 (o_level (\<lambda>i j. 0) (\<lambda>i j. 0) (\<lambda>i j. 1) 1 (1 * 1)))"
    by (rule flash_attention_closed[where nk=1]) simp_all
  moreover have "rmat (1 * 1) 1 (o_level (\<lambda>i j. 0) (\<lambda>i j. 0) (\<lambda>i j. 1) 1 (1 * 1))
      = \<lparr>shape0 = 1, shape1 = 1, data = [[Fin 1]]\<rparr>"
    by (simp add: rmat_def tabulate2_def o_level_def Usum_def Zsum_def tile_mloc_def)
  ultimately show ?thesis unfolding q k v by simp
qed

text \<open>
  Claim C2, amended. Whenever the column counts of Q, K, V disagree, \<open>flash_attention\<close>
  fails in its assertions, before the blocks are built; when the tile sizes pass the
  divisibility assertions the error is the column-count assertion. The row counts of K
  and V are not compared.
\<close>

theorem column_mismatch_error:
  assumes "\<not> (shape1 q = shape1 k \<and> shape1 k = shape1 v)"
  shows "\<exists>e. flash_asserts q k v b_r b_c = Some e \<and> flash_attention q k v b_r b_c = Inl e
     \<and> (b_r \<noteq> 0 \<and> b_c \<noteq> 0 \<and> b_r dvd int (shape0 q) \<and> b_c dvd int (shape0 k) \<and> b_c dvd int (shape0 v)
          \<longrightarrow> e = AssertionError ''the number of columns of q, k, v must be the same'')"
proof -
  obtain e where e: "flash_asserts q k v b_r b_c = Some e"
    using assms flash_asserts_None_iff[of q k v b_r b_c] by (cases "flash_asserts q k v b_r b_c") auto
  have "e = AssertionError ''the number of columns of q, k, v must be the same''"
    if "b_r \<noteq> 0 \<and> b_c \<noteq> 0 \<and> b_r dvd int (shape0 q) \<and> b_c dvd int (shape0 k) \<and> b_c dvd int (shape0 v)"
    using e that assms unfolding flash_asserts_def mod_eq_0_iff_dvd by (simp split: if_splits)
  then show ?thesis using e flash_attention_fails[OF e] by blast
qed

theorem column_mismatch_error_witness:
  "\<not> (shape1 \<lparr>shape0 = 1, shape1 = 4, data = [[Fin 0, Fin 0, Fin 0, Fin 0]]\<rparr>
        = shape1 \<lparr>shape0 = 1, shape1 = 3, data = [[Fin 0, Fin 0, Fin 0]]\<rparr>
      \<and> shape1 \<lparr>shape0 = 1, shape1 = 3, data = [[Fin 0, Fin 0, Fin 0]]\<rparr>
        = shape1 \<lparr>shape0 = 1, shape1 = 3, data = [[Fin 0, Fin 0, Fin 0]]\<rparr>)
   \<and> flash_attention \<lparr>shape0 = 1, shape1 = 4, data = [[Fin 0, Fin 0, Fin 0, Fin 0]]\<rparr>
        \<lparr>shape0 = 1, shape1 = 3, data = [[Fin 0, Fin 0, Fin 0]]\<rparr>
        \<lparr>shape0 = 1, shape1 = 3, data = [[Fin 0, Fin 0, Fin 0]]\<rparr> 1 1
      = Inl (AssertionError ''the number of columns of q, k, v must be the same'')"
proof -
  let ?q = "\<lparr>shape0 = 1, shape1 = 4, data = [[Fin 0, Fin 0, Fin 0, Fin 0]]\<rparr>"
  let ?k = "\<lparr>shape0 = 1, shape1 = 3, data = [[Fin 0, Fin 0, Fin 0]]\<rparr>"
  have h: "\<not> (shape1 ?q = shape1 ?k \<and> shape1 ?k = shape1 ?k)" by simp
  from column_mismatch_error[OF h, of 1 1] h show ?thesis by auto
qed

lemma slice_rows_real:
  assumes "wf_array k" "real_valued k" "n \<le> shape0 k"
  shows "slice_rows k 0 n = rmat n (shape1 k) (ritem k)"
proof -
  have "slice_rows (rmat (shape0 k) (shape1 k) (ritem k)) 0 n = rmat (n - 0) (shape1 k) (\<lambda>a t. ritem k (0 + a) t)"
    using assms(3) by (intro slice_rows_rmat) simp_all
  then show ?thesis using real_array_rmat[OF assms(1,2)] by simp
qed

text \<open>
  Claim C10, as stated, fails: the assertions also require b_c to divide the row counts of
  K and of V. Here N = 2 and b_c = 2, the column counts agree, K and V have three rows,
  and \<open>flash_attention\<close> raises the assertion on K.
\<close>

theorem extra_rows_counterexample:
  "shape0 \<lparr>shape0 = 2, shape1 = 1, data = [[Fin 0], [Fin 0]]\<rparr>
     < shape0 \<lparr>shape0 = 3, shape1 = 1, data = [[Fin 0], [Fin 0], [Fin 0]]\<rparr>
   \<and> (2::int) dvd int (shape0 \<lparr>shape0 = 2, shape1 = 1, data = [[Fin 0], [Fin 0]]\<rparr>)
   \<and> shape1 \<lparr>shape0 = 3, shape1 = 1, data = [[Fin 0], [Fin 0], [Fin 0]]\<rparr>
       = shape1 \<lparr>shape0 = 2, shape1 = 1, data = [[Fin 0], [Fin 0]]\<rparr>
   \<and> flash_attention \<lparr>shape0 = 2, shape1 = 1, data = [[Fin 0], [Fin 0]]\<rparr>
        \<lparr>shape0 = 3, shape1 = 1, data = [[Fin 0], [Fin 0], [Fin 0]]\<rparr>
        \<lparr>shape0 = 3, shape1 = 1, data = [[Fin 0], [Fin 0], [Fin 0]]\<rparr> 2 2
      = Inl (AssertionError ''the number of rows of k must be divisible by b_c'')"
  by (simp add: flash_attention_def flash_asserts_def)

text \<open>
  Claim C10, amended. Let Q, K, V be real-valued with equal column counts, Q of N >= 1
  rows, K and V of at least N rows, and let the positive tile sizes satisfy the
  assertions: b_r divides N, b_c divides N and the row counts of K and of V. Then
  \<open>flash_attention\<close> returns an N x d output, the one it returns for K and V cut to
  their first N rows: the blocks of K and V are taken from rows 0..N-1 only.
\<close>

theorem extra_rows_ignored:
  assumes "wf_array q" and "wf_array k" and "wf_array v"
    and "real_valued q" and "real_valued k" and "real_valued v"
    and "shape1 k = shape1 q" and "shape1 v = shape1 q"
    and "0 < shape0 q" and "shape0 q \<le> shape0 k" and "shape0 q \<le> shape0 v"
    and "0 < b_r" and "0 < b_c" and "b_r dvd int (shape0 q)" and "b_c dvd int (shape0 q)"
    and "b_c dvd int (shape0 k)" and "b_c dvd int (shape0 v)"
  shows "flash_attention q k v b_r b_c
       = flash_attention q (slice_rows k 0 (shape0 q)) (slice_rows v 0 (shape0 q)) b_r b_c
     \<and> (\<exists>out. flash_attention q k v b_r b_c = Inr out \<and> wf_array out
           \<and> shape0 out = shape0 q \<and> shape1 out = shape1 q)"
proof -
  let ?k = "slice_rows k 0 (shape0 q)" and ?v = "slice_rows v 0 (shape0 q)"
  have k': "?k = rmat (shape0 q) (shape1 q) (ritem k)"
    using assms(2,5,7,10) by (simp add: slice_rows_real)
  have v': "?v = rmat (shape0 q) (shape1 q) (ritem v)"
    using assms(3,6,8,11) by (simp add: slice_rows_real)
  have full: "flash_attention q k v b_r b_c
      = Inr (rmat (shape0 q) (shape1 q) (o_level (ritem q) (ritem k) (ritem v) (shape1 q) (shape0 q)))"
    using flash_attention_real[of q k v b_r b_c] assms by simp
  define br bc where "br = nat b_r" and "bc = nat b_c"
  have b: "b_r = int br" "b_c = int bc" "0 < br" "0 < bc" using assms(12,13) by (simp_all add: br_def bc_def)
  have "br dvd shape0 q" "bc dvd shape0 q"
    using assms(14,15) unfolding b by (simp_all only: int_dvd_int_iff)
  then obtain nq nk where nq: "shape0 q = nq * br" and nk: "shape0 q = nk * bc"
    unfolding dvd_def by (metis mult.commute)
  have nq0: "0 < nq" using assms(9) nq by (cases nq) simp_all
  have q: "q = rmat (nq * br) (shape1 q) (ritem q)"
    using real_array_rmat[OF assms(1,4)] by (simp add: nq)
  have "flash_attention (rmat (nq * br) (shape1 q) (ritem q)) (rmat (nq * br) (shape1 q) (ritem k))
          (rmat (nq * br) (shape1 q) (ritem v)) (int br) (int bc)
      = Inr (rmat (nq * br) (shape1 q) (o_level (ritem q) (ritem k) (ritem v) (shape1 q) (nq * br)))"
    using b(3,4) nq0 nk nq by (intro flash_attention_closed[where nk=nk]) simp_all
  then have cut: "flash_attention q ?k ?v b_r b_c
      = Inr (rmat (shape0 q) (shape1 q) (o_level (ritem q) (ritem k) (ritem v) (shape1 q) (shape0 q)))"
    unfolding k' v' b using q nq by simp
  show ?thesis unfolding full cut by simp
qed

theorem extra_rows_ignored_witness:
  "(let q = \<lparr>shape0 = 1, shape1 = 1, data = [[Fin 0]]\<rparr>;
        k = \<lparr>shape0 = 2, shape1 = 1, data = [[Fin 0], [Fin 5]]\<rparr>;
        v = \<lparr>shape0 = 2, shape1 = 1, data = [[Fin 1], [Fin 7]]\<rparr>
    in wf_array q \<and> wf_array k \<and> wf_array v \<and> real_valued q \<and> real_valued k \<and> real_valued v
       \<and> shape1 k = shape1 q \<and> shape1 v = shape1 q
       \<and> 0 < shape0 q \<and> shape0 q < shape0 k \<and> shape0 q < shape0 v
       \<and> (1::int) dvd int (shape0 q) \<and> (1::int) dvd int (shape0 k) \<and> (1::int) dvd int (shape0 v)
       \<and> flash_attention q k v 1 1
           = flash_attention q (slice_rows k 0 (shape0 q)) (slice_rows v 0 (shape0 q)) 1 1
       \<and> (\<exists>out. flash_attention q k v 1 1 = Inr out \<and> wf_array out
             \<and> shape0 out = shape0 q \<and> shape1 out = shape1 q))"
proof -
  let ?q = "\<lparr>shape0 = 1, shape1 = 1, data = [[Fin 0]]\<rparr>"
  let ?k = "\<lparr>shape0 = 2, shape1 = 1, data = [[Fin 0], [Fin 5]]\<rparr>"
  let ?v = "\<lparr>shape0 = 2, shape1 = 1, data = [[Fin 1], [Fin 7]]\<rparr>"
  have wf: "wf_array ?q" "wf_array ?k" "wf_array ?v" by (simp_all add: wf_array_def)
  have rv: "real_valued ?q" "real_valued ?k" "real_valued ?v" by (simp_all add: real_valued_def)
  have "flash_attention ?q ?k ?v 1 1
       = flash_attention ?q (slice_rows ?k 0 (shape0 ?q)) (slice_rows ?v 0 (shape0 ?q)) 1 1
     \<and> (\<exists>out. flash_attention ?q ?k ?v 1 1 = Inr out \<and> wf_array out
           \<and> shape0 out = shape0 ?q \<and> shape1 out = shape1 ?q)"
    using wf rv by (intro extra_rows_ignored) simp_all
  moreover have "shape1 ?k = shape1 ?q \<and> shape1 ?v = shape1 ?q
       \<and> 0 < shape0 ?q \<and> shape0 ?q < shape0 ?k \<and> shape0 ?q < shape0 ?v
       \<and> (1::int) dvd int (shape0 ?q) \<and> (1::int) dvd int (shape0 ?k) \<and> (1::int) dvd int (shape0 ?v)"
    by simp
  ultimately show ?thesis unfolding Let_def using wf rv by blast
qed

lemma has_shape_real_rmat:
  assumes "has_shape a r c" "real_valued a"
  shows "a = rmat r c (ritem a)"
  using assms real_array_rmat[of a] by (simp add: has_shape_def)

lemma column_rmat:
  assumes "has_shape a r 1" "real_valued a"
  shows "a = rmat r 1 (\<lambda>i j. ritem a i 0)"
proof -
  have "rmat r 1 (ritem a) = rmat r 1 (\<lambda>i j. ritem a i 0)"
    by (rule rmat_cong) simp_all
  then show ?thesis using has_shape_real_rmat[OF assms] by simp
qed

lemma running_max_column:
  assumes "has_shape a r 1" "running_max_valued a"
  shows "a = tabulate2 r 1 (\<lambda>i j. if i < r then item a i 0 else NInf)
     \<and> (\<forall>i. lowfin (if i < r then item a i 0 else NInf))"
proof -
  have wf: "wf_array a" "shape0 a = r" "shape1 a = 1" using assms(1) by (simp_all add: has_shape_def)
  have low: "lowfin (item a i 0)" if "i < r" for i
  proof -
    have "data a ! i \<in> set (data a)" using that wf by (simp add: wf_array_def)
    moreover then have "length (data a ! i) = 1" using wf by (simp add: wf_array_def list_all_iff)
    ultimately have "data a ! i ! 0 \<in> set (data a ! i)" by simp
    then show ?thesis
      using assms(2) \<open>data a ! i \<in> set (data a)\<close> by (auto simp: running_max_valued_def list_all_iff item_def)
  qed
  have "a = tabulate2 r 1 (item a)" using wf_array_tabulate2[OF wf(1)] wf by simp
  also have "\<dots> = tabulate2 r 1 (\<lambda>i j. if i < r then item a i 0 else NInf)"
    by (rule tabulate2_cong) simp_all
  finally show ?thesis using low by simp
qed

lemma tile_inputs_rmat:
  assumes "has_shape q_block r d" "real_valued q_block"
    and "has_shape k_block c d" "real_valued k_block"
    and "has_shape v_block c d" "real_valued v_block"
    and "has_shape m_block r 1" "running_max_valued m_block"
    and "has_shape l_block r 1" "real_valued l_block"
    and "has_shape o_block r d" "real_valued o_block"
  shows "\<exists>Qb Kb Vb ov mval lv.
    q_block = rmat r d Qb \<and> k_block = rmat c d Kb \<and> v_block = rmat c d Vb
    \<and> m_block = tabulate2 r 1 (\<lambda>i j. mval i) \<and> l_block = rmat r 1 (\<lambda>i j. lv i)
    \<and> o_block = rmat r d ov \<and> (\<forall>i. lowfin (mval i))"
proof -
  have m: "m_block = tabulate2 r 1 (\<lambda>i j. if i < r then item m_block i 0 else NInf)"
    and low: "\<And>i. lowfin (if i < r then item m_block i 0 else NInf)"
    using running_max_column[OF assms(7,8)] by simp_all
  show ?thesis
    apply (rule exI[of _ "ritem q_block"])
    apply (rule exI[of _ "ritem k_block"])
    apply (rule exI[of _ "ritem v_block"])
    apply (rule exI[of _ "ritem o_block"])
    apply (rule exI[of _ "\<lambda>i. if i < r then item m_block i 0 else NInf"])
    apply (rule exI[of _ "\<lambda>i. ritem l_block i 0"])
    using has_shape_real_rmat[OF assms(1,2)] has_shape_real_rmat[OF assms(3,4)]
      has_shape_real_rmat[OF assms(5,6)] m column_rmat[OF assms(9,10)]
      has_shape_real_rmat[OF assms(11,12)] low
    by (intro conjI allI)
qed

lemma le_tile_mloc: "t < c \<Longrightarrow> srow t \<le> tile_mloc srow c"
  unfolding tile_mloc_def by (rule Max_ge) simp_all

lemma mscale_tile_m_arg: "lowfin m \<Longrightarrow> fle (fsub m (Fin (mmax m y))) (Fin 0)"
  by (cases m) simp_all

lemma mmax_ge: "y \<le> mmax m y"
  by (cases m) simp_all

text \<open>
  Claim C3. In one pass of the loop body over real-valued blocks, with a running maximum
  that is minus infinity or finite, every row a gets
  \<open>m_i_new = max(m_block, m_i_j)\<close> and
  \<open>l_i_new = l_block * exp(m_block - m_i_new) + l_i_j * exp(m_i_j - m_i_new)\<close>.
  After the loops over real-valued Q, K, V of one shape (N >= 1, positive tile sizes
  dividing N) the blocks of m and l, put together, are the row maxima of the full score
  matrix Q K^T and the row sums of exp(score - row maximum): the values of one pass with
  the global maximum.
\<close>

theorem online_state_update:
  assumes "has_shape q_block r d" and "real_valued q_block"
    and "has_shape k_block c d" and "real_valued k_block"
    and "has_shape v_block c d" and "real_valued v_block" and "0 < c"
    and "has_shape m_block r 1" and "running_max_valued m_block"
    and "has_shape l_block r 1" and "real_valued l_block"
    and "has_shape o_block r d" and "real_valued o_block"
    and "wf_array q" and "wf_array k" and "wf_array v"
    and "real_valued q" and "real_valued k" and "real_valued v"
    and "shape0 k = shape0 q" and "shape0 v = shape0 q"
    and "shape1 k = shape1 q" and "shape1 v = shape1 q"
    and "0 < shape0 q" and "0 < b_r" and "0 < b_c"
    and "b_r dvd int (shape0 q)" and "b_c dvd int (shape0 q)"
  shows "(\<exists>T. tile_body q_block m_block l_block o_block k_block v_block = Inr T
           \<and> (\<forall>a<r. item (m_i_new T) a 0 = fmaximum (item m_block a 0) (item (m_i_j T) a 0)
                  \<and> item (l_i_new T) a 0
                      = fadd (fmul (item l_block a 0)
                                   (fexp (fsub (item m_block a 0) (item (m_i_new T) a 0))))
                             (fmul (item (l_i_j T) a 0)
                                   (fexp (fsub (item (m_i_j T) a 0) (item (m_i_new T) a 0))))))
     \<and> (\<exists>ob mb lb S M E. flash_loops q k v b_r b_c = Inr (ob, mb, lb)
           \<and> np_matmul q (transpose_T k) = Inr S \<and> np_max_axis1 S = Inr M \<and> np_sub S M = Inr E
           \<and> np_concatenate mb = Inr M \<and> np_concatenate lb = Inr (np_sum_axis1 (np_exp E)))"
proof (rule conjI)
  obtain Qb Kb Vb ov mval lv where forms:
    "q_block = rmat r d Qb" "k_block = rmat c d Kb" "v_block = rmat c d Vb"
    "m_block = tabulate2 r 1 (\<lambda>i j. mval i)" "l_block = rmat r 1 (\<lambda>i j. lv i)"
    "o_block = rmat r d ov" and low: "\<And>i. lowfin (mval i)"
    using tile_inputs_rmat[OF assms(1-6,8-13)] by blast
  note T = tile_body_real[OF assms(7), where mval=mval and lv=lv and r=r and d=d and Qb=Qb and ov=ov
      and Kb=Kb and Vb=Vb, OF low]
  show "\<exists>T. tile_body q_block m_block l_block o_block k_block v_block = Inr T
           \<and> (\<forall>a<r. item (m_i_new T) a 0 = fmaximum (item m_block a 0) (item (m_i_j T) a 0)
                  \<and> item (l_i_new T) a 0
                      = fadd (fmul (item l_block a 0)
                                   (fexp (fsub (item m_block a 0) (item (m_i_new T) a 0))))
                             (fmul (item (l_i_j T) a 0)
                                   (fexp (fsub (item (m_i_j T) a 0) (item (m_i_new T) a 0)))))"
    unfolding forms T
    by (simp add: fmaximum_lowfin low fexp_fsub_lowfin tile_m_def tile_l_def)
next
  define br bc where "br = nat b_r" and "bc = nat b_c"
  define N where "N = shape0 q"
  define d' where "d' = shape1 q"
  have b: "b_r = int br" "b_c = int bc" "0 < br" "0 < bc" using assms(25,26) by (simp_all add: br_def bc_def)
  have "br dvd N" "bc dvd N"
    using assms(27,28) unfolding b N_def by (simp_all only: int_dvd_int_iff)
  then obtain nq nk where nq: "N = nq * br" and nk: "N = nk * bc"
    unfolding dvd_def by (metis mult.commute)
  have N0: "0 < N" using assms(24) by (simp add: N_def)
  have nq0: "0 < nq" using N0 nq by (cases nq) simp_all
  let ?Q = "ritem q" and ?K = "ritem k" and ?V = "ritem v"
  let ?S = "score ?Q ?K d'"
  have q: "q = rmat N d' ?Q" using real_array_rmat[OF assms(14,17)] by (simp add: N_def d'_def)
  have k: "k = rmat N d' ?K" using real_array_rmat[OF assms(15,18)] assms(20,22) by (simp add: N_def d'_def)
  have v: "v = rmat N d' ?V" using real_array_rmat[OF assms(16,19)] assms(21,23) by (simp add: N_def d'_def)
  have loops: "flash_loops (rmat (nq * br) d' ?Q) (rmat (nq * br) d' ?K) (rmat (nq * br) d' ?V) (int br) (int bc)
      = Inr (state_at ?Q ?K ?V d' br nq (nq * br))"
    using b(3,4) nk nq by (intro flash_loops_closed[where nk=nk]) simp_all
  have Sfun: "?S = (\<lambda>i j. \<Sum>t<d'. ?Q i t * ?K j t)"
    by (intro ext) (simp add: score_def)
  have s1: "np_matmul (rmat N d' ?Q) (transpose_T (rmat N d' ?K)) = Inr (rmat N N ?S)"
    unfolding Sfun by (simp add: transpose_T_rmat np_matmul_rmat)
  have s2: "np_max_axis1 (rmat N N ?S) = Inr (rmat N 1 (\<lambda>r j. tile_mloc (?S r) N))"
    using N0 by (simp add: np_max_axis1_rmat tile_mloc_def)
  have s3: "np_sub (rmat N N ?S) (rmat N 1 (\<lambda>r j. tile_mloc (?S r) N))
      = Inr (rmat N N (\<lambda>r t. ?S r t - tile_mloc (?S r) N))"
    by (simp add: np_sub_def rmat_def broadcast_mat_col)
  have s4: "np_sum_axis1 (np_exp (rmat N N (\<lambda>r t. ?S r t - tile_mloc (?S r) N)))
      = rmat N 1 (\<lambda>r j. Zsum (?S r) N)"
    by (simp add: np_exp_rmat np_sum_axis1_rmat Zsum_def)
  have mlev_N: "mlev srow N = Fin (tile_mloc srow N)" for srow
    using N0 by (simp add: mlev_def)
  have cm: "np_concatenate (map (m_block_at ?Q ?K d' br N) [0..<nq]) = Inr (rmat N 1 (\<lambda>r j. tile_mloc (?S r) N))"
    unfolding m_block_at_def rmat_def mlev_N
    using np_concatenate_blocks[OF nq0, of br 1 "\<lambda>r t. Fin (tile_mloc (?S r) N)"] nq by simp
  have cl: "np_concatenate (map (l_block_at ?Q ?K d' br N) [0..<nq]) = Inr (rmat N 1 (\<lambda>r j. Zsum (?S r) N))"
    unfolding l_block_at_def rmat_def
    using np_concatenate_blocks[OF nq0, of br 1 "\<lambda>r t. Fin (Zsum (?S r) N)"] nq by simp
  have fl: "flash_loops q k v b_r b_c = Inr (state_at ?Q ?K ?V d' br nq N)"
    using loops q k v b(1,2) nq by simp
  show "\<exists>ob mb lb S M E. flash_loops q k v b_r b_c = Inr (ob, mb, lb)
           \<and> np_matmul q (transpose_T k) = Inr S \<and> np_max_axis1 S = Inr M \<and> np_sub S M = Inr E
           \<and> np_concatenate mb = Inr M \<and> np_concatenate lb = Inr (np_sum_axis1 (np_exp E))"
    unfolding fl state_at_def
    apply (rule exI[of _ "map (o_block_at ?Q ?K ?V d' br N) [0..<nq]"])
    apply (rule exI[of _ "map (m_block_at ?Q ?K d' br N) [0..<nq]"])
    apply (rule exI[of _ "map (l_block_at ?Q ?K d' br N) [0..<nq]"])
    apply (rule exI[of _ "rmat N N ?S"])
    apply (rule exI[of _ "rmat N 1 (\<lambda>r j. tile_mloc (?S r) N)"])
    apply (rule exI[of _ "rmat N N (\<lambda>r t. ?S r t - tile_mloc (?S r) N)"])
    using s1 s2 s3 s4 cm cl q k by simp
qed

theorem online_state_update_witness:
  "(let q_block = \<lparr>shape0 = 1, shape1 = 1, data = [[Fin 0]]\<rparr>;
        k_block = \<lparr>shape0 = 1, shape1 = 1, data = [[Fin 0]]\<rparr>;
        v_block = \<lparr>shape0 = 1, shape1 = 1, data = [[Fin 1]]\<rparr>;
        m_block = \<lparr>shape0 = 1, shape1 = 1, data = [[NInf]]\<rparr>;
        l_block = \<lparr>shape0 = 1, shape1 = 1, data = [[Fin 0]]\<rparr>;
        o_block = \<lparr>shape0 = 1, shape1 = 1, data = [[Fin 0]]\<rparr>;
        q = \<lparr>shape0 = 2, shape1 = 1, data = [[Fin 0], [Fin 0]]\<rparr>;
        k = \<lparr>shape0 = 2, shape1 = 1, data = [[Fin 0], [Fin 0]]\<rparr>;
        v = \<lparr>shape0 = 2, shape1 = 1, data = [[Fin 1], [Fin 2]]\<rparr>
    in has_shape q_block 1 1 \<and> real_valued q_block \<and> has_shape k_block 1 1 \<and> real_valued k_block
       \<and> has_shape v_block 1 1 \<and> real_valued v_block \<and> (0::nat) < 1
       \<and> has_shape m_block 1 1 \<and> running_max_valued m_block
       \<and> has_shape l_block 1 1 \<and> real_valued l_block \<and> has_shape o_block 1 1 \<and> real_valued o_block
       \<and> wf_array q \<and> wf_array k \<and> wf_array v \<and> real_valued q \<and> real_valued k \<and> real_valued v
       \<and> shape0 k = shape0 q \<and> shape0 v = shape0 q \<and> shape1 k = shape1 q \<and> shape1 v = shape1 q
       \<and> 0 < shape0 q \<and> (1::int) dvd int (shape0 q) \<and> (2::int) dvd int (shape0 q)
       \<and> (\<exists>T. tile_body q_block m_block l_block o_block k_block v_block = Inr T
           \<and> (\<forall>a<1. item (m_i_new T) a 0 = fmaximum (item m_block a 0) (item (m_i_j T) a 0)
                  \<and> item (l_i_new T) a 0
                      = fadd (fmul (item l_block a 0)
                                   (fexp (fsub (item m_block a 0) (item (m_i_new T) a 0))))
                             (fmul (item (l_i_j T) a 0)
                                   (fexp (fsub (item (m_i_j T) a 0) (item (m_i_new T) a 0))))))
       \<and> (\<exists>ob mb lb S M E. flash_loops q k v 1 2 = Inr (ob, mb, lb)
           \<and> np_matmul q (transpose_T k) = Inr S \<and> np_max_axis1 S = Inr M \<and> np_sub S M = Inr E
           \<and> np_concatenate mb = Inr M \<and> np_concatenate lb = Inr (np_sum_axis1 (np_exp E))))"
proof -
  let ?z = "\<lparr>shape0 = 1, shape1 = 1, data = [[Fin 0]]\<rparr>"
  let ?one = "\<lparr>shape0 = 1, shape1 = 1, data = [[Fin 1]]\<rparr>"
  let ?m = "\<lparr>shape0 = 1, shape1 = 1, data = [[NInf]]\<rparr>"
  let ?q = "\<lparr>shape0 = 2, shape1 = 1, data = [[Fin 0], [Fin 0]]\<rparr>"
  let ?v = "\<lparr>shape0 = 2, shape1 = 1, data = [[Fin 1], [Fin 2]]\<rparr>"
  have sh: "has_shape ?z 1 1" "has_shape ?one 1 1" "has_shape ?m 1 1"
    by (simp_all add: has_shape_def wf_array_def)
  have rv: "real_valued ?z" "real_valued ?one" "real_valued ?q" "real_valued ?v"
    by (simp_all add: real_valued_def)
  have rm: "running_max_valued ?m" by (simp add: running_max_valued_def)
  have wf: "wf_array ?q" "wf_array ?v" by (simp_all add: wf_array_def)
  have rest: "(0::nat) < 1 \<and> shape0 ?q = shape0 ?q \<and> shape0 ?v = shape0 ?q \<and> shape1 ?q = shape1 ?q
      \<and> shape1 ?v = shape1 ?q \<and> 0 < shape0 ?q \<and> (1::int) dvd int (shape0 ?q) \<and> (2::int) dvd int (shape0 ?q)"
    by simp
  have "(\<exists>T. tile_body ?z ?m ?z ?z ?z ?one = Inr T
           \<and> (\<forall>a<1. item (m_i_new T) a 0 = fmaximum (item ?m a 0) (item (m_i_j T) a 0)
                  \<and> item (l_i_new T) a 0
                      = fadd (fmul (item ?z a 0)
                                   (fexp (fsub (item ?m a 0) (item (m_i_new T) a 0))))
                             (fmul (item (l_i_j T) a 0)
                                   (fexp (fsub (item (m_i_j T) a 0) (item (m_i_new T) a 0))))))
       \<and> (\<exists>ob mb lb S M E. flash_loops ?q ?q ?v 1 2 = Inr (ob, mb, lb)
           \<and> np_matmul ?q (transpose_T ?q) = Inr S \<and> np_max_axis1 S = Inr M \<and> np_sub S M = Inr E
           \<and> np_concatenate mb = Inr M \<and> np_concatenate lb = Inr (np_sum_axis1 (np_exp E)))"
    using sh rv rm wf by (intro online_state_update[where r=1 and d=1 and c=1]) simp_all
  then show ?thesis unfolding Let_def using sh rv rm wf rest by blast
qed




lemma sum_exp_pos_lessThan:
  assumes "0 < (c::nat)"
  shows "0 < (\<Sum>t<c. exp (f t :: real))"
  using assms by (intro sum_pos) auto

text \<open>
  Claim C5. In one pass of the loop body over real-valued blocks, with a running maximum
  that is minus infinity or finite, each of the three arrays handed to \<open>np.exp\<close>
  (\<open>s_i_j - m_i_j\<close>, \<open>m_block - m_i_new\<close>, \<open>m_i_j - m_i_new\<close>) has only elements that
  are at most 0 or minus infinity. For a row whose running maximum is still minus infinity
  and whose normaliser is still 0 (the first merge), \<open>exp(m_block - m_i_new)\<close> is 0, the new
  normaliser is the local sum, the rescaled old output is 0 and the new output is finite.
\<close>

theorem exp_arguments_nonpositive:
  assumes "has_shape q_block r d" and "real_valued q_block"
    and "has_shape k_block c d" and "real_valued k_block"
    and "has_shape v_block c d" and "real_valued v_block" and "0 < c"
    and "has_shape m_block r 1" and "running_max_valued m_block"
    and "has_shape l_block r 1" and "real_valued l_block"
    and "has_shape o_block r d" and "real_valued o_block"
  shows "\<exists>T. tile_body q_block m_block l_block o_block k_block v_block = Inr T
     \<and> p_i_j T = np_exp (exp_arg_p T)
     \<and> (\<forall>a<r. item (l_i_new T) a 0
           = fadd (fmul (item l_block a 0) (fexp (item (exp_arg_old T) a 0)))
                  (fmul (item (l_i_j T) a 0) (fexp (item (exp_arg_cur T) a 0))))
     \<and> (\<forall>a<r. \<forall>t<c. fle (item (exp_arg_p T) a t) (Fin 0))
     \<and> (\<forall>a<r. fle (item (exp_arg_old T) a 0) (Fin 0) \<and> fle (item (exp_arg_cur T) a 0) (Fin 0))
     \<and> (\<forall>a<r. item m_block a 0 = NInf \<and> item l_block a 0 = Fin 0 \<longrightarrow>
           fexp (item (exp_arg_old T) a 0) = Fin 0
           \<and> item (l_i_new T) a 0 = item (l_i_j T) a 0
           \<and> (\<forall>t<d. item (updated_old_o_block T) a t = Fin 0 \<and> is_Fin (item (o_i_new T) a t)))"
proof -
  obtain Qb Kb Vb ov mval lv where forms:
    "q_block = rmat r d Qb" "k_block = rmat c d Kb" "v_block = rmat c d Vb"
    "m_block = tabulate2 r 1 (\<lambda>i j. mval i)" "l_block = rmat r 1 (\<lambda>i j. lv i)"
    "o_block = rmat r d ov" and low: "\<And>i. lowfin (mval i)"
    using tile_inputs_rmat[OF assms(1-6,8-13)] by blast
  note T = tile_body_real[OF assms(7), where mval=mval and lv=lv and r=r and d=d and Qb=Qb and ov=ov
      and Kb=Kb and Vb=Vb, OF low]
  let ?S = "\<lambda>i t. \<Sum>u<d. Qb i u * Kb t u"
  have nz: "(\<Sum>t<c. exp (?S a t - tile_mloc (?S a) c)) \<noteq> 0" for a
    using sum_exp_pos_lessThan[OF assms(7), of "\<lambda>t. ?S a t - tile_mloc (?S a) c"] by simp
  have le: "?S a t \<le> tile_mloc (?S a) c" if "t < c" for a t
    using le_tile_mloc[OF that, of "?S a"] by simp
  have old: "fle (fsub (mval a) (Fin (tile_m (mval a) (?S a) c))) (Fin 0)" for a
    unfolding tile_m_def using low by (rule mscale_tile_m_arg)
  show ?thesis
    unfolding forms T
    by (simp add: np_exp_rmat fexp_fsub_lowfin low tile_l_def tile_m_def le mmax_ge
          old[unfolded tile_m_def] nz)
qed

theorem exp_arguments_nonpositive_witness:
  "(let q_block = \<lparr>shape0 = 1, shape1 = 1, data = [[Fin 0]]\<rparr>;
        k_block = \<lparr>shape0 = 1, shape1 = 1, data = [[Fin 0]]\<rparr>;
        v_block = \<lparr>shape0 = 1, shape1 = 1, data = [[Fin 1]]\<rparr>;
        m_block = \<lparr>shape0 = 1, shape1 = 1, data = [[NInf]]\<rparr>;
        l_block = \<lparr>shape0 = 1, shape1 = 1, data = [[Fin 0]]\<rparr>;
        o_block = \<lparr>shape0 = 1, shape1 = 1, data = [[Fin 0]]\<rparr>
    in has_shape q_block 1 1 \<and> real_valued q_block \<and> has_shape k_block 1 1 \<and> real_valued k_block
       \<and> has_shape v_block 1 1 \<and> real_valued v_block \<and> (0::nat) < 1
       \<and> has_shape m_block 1 1 \<and> running_max_valued m_block
       \<and> has_shape l_block 1 1 \<and> real_valued l_block \<and> has_shape o_block 1 1 \<and> real_valued o_block
       \<and> item m_block 0 0 = NInf \<and> item l_block 0 0 = Fin 0
       \<and> (\<exists>T. tile_body q_block m_block l_block o_block k_block v_block = Inr T
             \<and> p_i_j T = np_exp (exp_arg_p T)
             \<and> (\<forall>a<1. item (l_i_new T) a 0
                   = fadd (fmul (item l_block a 0) (fexp (item (exp_arg_old T) a 0)))
                          (fmul (item (l_i_j T) a 0) (fexp (item (exp_arg_cur T) a 0))))
             \<and> (\<forall>a<1. \<forall>t<1. fle (item (exp_arg_p T) a t) (Fin 0))
             \<and> (\<forall>a<1. fle (item (exp_arg_old T) a 0) (Fin 0) \<and> fle (item (exp_arg_cur T) a 0) (Fin 0))
             \<and> (\<forall>a<1. item m_block a 0 = NInf \<and> item l_block a 0 = Fin 0 \<longrightarrow>
                   fexp (item (exp_arg_old T) a 0) = Fin 0
                   \<and> item (l_i_new T) a 0 = item (l_i_j T) a 0
                   \<and> (\<forall>t<1. item (updated_old_o_block T) a t = Fin 0 \<and> is_Fin (item (o_i_new T) a t)))))"
proof -
  let ?z = "\<lparr>shape0 = 1, shape1 = 1, data = [[Fin 0]]\<rparr>"
  let ?one = "\<lparr>shape0 = 1, shape1 = 1, data = [[Fin 1]]\<rparr>"
  let ?m = "\<lparr>shape0 = 1, shape1 = 1, data = [[NInf]]\<rparr>"
  have sh: "has_shape ?z 1 1" "has_shape ?one 1 1" "has_shape ?m 1 1"
    by (simp_all add: has_shape_def wf_array_def)
  have rv: "real_valued ?z" "real_valued ?one"
    by (simp_all add: real_valued_def)
  have rm: "running_max_valued ?m" by (simp add: running_max_valued_def)
  have pos: "(0::nat) < 1" by simp
  have first: "item ?m 0 0 = NInf" "item ?z 0 0 = Fin 0" by (simp_all add: item_def)
  note inst = exp_arguments_nonpositive[OF sh(1) rv(1) sh(1) rv(1) sh(2) rv(2) pos sh(3) rm sh(1) rv(1) sh(1) rv(1)]
  show ?thesis unfolding Let_def using sh rv rm pos first inst by blast
qed

text \<open>
  The second scenario of the specification, run through the model: all scores are equal,
  the attention is uniform, and both rows of the output are the mean 1.5 of the values.
\<close>

lemma uniform_attention_example:
  "flash_attention \<lparr>shape0 = 2, shape1 = 1, data = [[Fin 0], [Fin 0]]\<rparr>
        \<lparr>shape0 = 2, shape1 = 1, data = [[Fin 0], [Fin 0]]\<rparr>
        \<lparr>shape0 = 2, shape1 = 1, data = [[Fin 1], [Fin 2]]\<rparr> 1 1
     = Inr \<lparr>shape0 = 2, shape1 = 1, data = [[Fin (3 / 2)], [Fin (3 / 2)]]\<rparr>"
proof -
  have q: "\<lparr>shape0 = 2, shape1 = 1, data = [[Fin 0], [Fin 0]]\<rparr> = rmat (2 * 1) 1 (\<lambda>i j. 0)"
    and v: "\<lparr>shape0 = 2, shape1 = 1, data = [[Fin 1], [Fin 2]]\<rparr> = rmat (2 * 1) 1 (\<lambda>i j. real i + 1)"
    by (simp_all add: rmat_def tabulate2_def upt_conv_Cons)
  have "flash_attention (rmat (2 * 1) 1 (\<lambda>i j. 0)) (rmat (2 * 1) 1 (\<lambda>i j. 0))
          (rmat (2 * 1) 1 (\<lambda>i j. real i + 1)) (int 1) (int 1)
      = Inr (rmat (2 * 1) 1 (o_level (\<lambda>i j. 0) (\<lambda>i j. 0) (\<lambda>i j. real i + 1) 1 (2 * 1)))"
    by (rule flash_attention_closed[where nk=2]) simp_all
  moreover have "rmat (2 * 1) 1 (o_level (\<lambda>i j. 0) (\<lambda>i j. 0) (\<lambda>i j. real i + 1) 1 (2 * 1))
      = \<lparr>shape0 = 2, shape1 = 1, data = [[Fin (3 / 2)], [Fin (3 / 2)]]\<rparr>"
    by (simp add: rmat_def tabulate2_def o_level_def Usum_def Zsum_def tile_mloc_def score_def
          upt_conv_Cons lessThan_Suc numeral_2_eq_2)
  ultimately show ?thesis unfolding q v by simp
qed

subsection \<open>The blocks that reach the loop body in a run\<close>

text \<open>
  In a run on real-valued inputs the state before column block \<open>j\<close> is the state of the
  rows after the first \<open>j * b_c\<close> keys, and the blocks handed to the loop body for row
  block \<open>i\<close> and column block \<open>j\<close> are of the kind the theorems on one pass of the body
  ask for: real-valued blocks of Q, K, V, o and l, and a block of running maxima.
\<close>

lemma run_state_before_column_block:
  assumes br: "0 < br" and bc: "0 < bc" and N: "nq * br = nk * bc"
    and Mk: "nq * br \<le> Mk" and Mv: "nq * br \<le> Mv" and j: "j \<le> nk"
  shows "(let q = rmat (nq * br) d Q; k = rmat Mk d K; v = rmat Mv d V;
              b_r = int br; b_c = int bc;
              ob = np_zeros_like q;
              N = shape0 q;
              l = np_zeros N 1;
              m = np_full N 1 NInf;
              q_blocks = map (\<lambda>i. slice_rows q i (i + nat b_r)) (range0 N b_r);
              k_blocks = map (\<lambda>i. slice_rows k i (i + nat b_c)) (range0 N b_c);
              v_blocks = map (\<lambda>i. slice_rows v i (i + nat b_c)) (range0 N b_c);
              o_blocks = map (\<lambda>i. slice_rows ob i (i + nat b_r)) (range0 N b_r);
              l_blocks = map (\<lambda>i. slice_rows l i (i + nat b_r)) (range0 N b_r);
              m_blocks = map (\<lambda>i. slice_rows m i (i + nat b_r)) (range0 N b_r);
              n_q_blocks = length q_blocks
          in outer_loop q_blocks k_blocks v_blocks n_q_blocks [0..<j] (o_blocks, m_blocks, l_blocks)
               = Inr (state_at Q K V d br nq (j * bc))
             \<and> (\<forall>i<nq. q_blocks ! i = rmat br d (\<lambda>a t. Q (i * br + a) t))
             \<and> (\<forall>t<nk. k_blocks ! t = rmat bc d (\<lambda>c u. K (t * bc + c) u)
                       \<and> v_blocks ! t = rmat bc d (\<lambda>c u. V (t * bc + c) u)))"
proof -
  let ?qs = "map (\<lambda>i. rmat br d (\<lambda>a t. Q (i * br + a) t)) [0..<nq]"
  let ?ks = "map (\<lambda>j. rmat bc d (\<lambda>c u. K (j * bc + c) u)) [0..<nk]"
  let ?vs = "map (\<lambda>j. rmat bc d (\<lambda>c u. V (j * bc + c) u)) [0..<nk]"
  have qs: "map (\<lambda>i. slice_rows (rmat (nq * br) d Q) i (i + nat (int br))) (range0 (nq * br) (int br)) = ?qs"
    using br by (intro q_blocks_rmat) simp_all
  have ks: "map (\<lambda>i. slice_rows (rmat Mk d K) i (i + nat (int bc))) (range0 (nq * br) (int bc)) = ?ks"
    unfolding N using bc Mk N by (intro q_blocks_rmat) simp_all
  have vs: "map (\<lambda>i. slice_rows (rmat Mv d V) i (i + nat (int bc))) (range0 (nq * br) (int bc)) = ?vs"
    unfolding N using bc Mv N by (intro q_blocks_rmat) simp_all
  have step: "inner_loop ?qs (?ks ! t) (?vs ! t) [0..<nq] (state_at Q K V d br nq (t * bc))
      = Inr (state_at Q K V d br nq (Suc t * bc))" if "t < j" for t
  proof -
    have "t < nk" using that j by simp
    then show ?thesis
      using inner_loop_level[OF bc, of br d Q nq K "t * bc" V] by (simp add: add.commute)
  qed
  have "outer_loop ?qs ?ks ?vs nq [0..<j] (state_at Q K V d br nq (0 * bc))
      = Inr (state_at Q K V d br nq (j * bc))"
    using step by (rule outer_loop_levels[where ST="\<lambda>j. state_at Q K V d br nq (j * bc)"])
  then have loop: "outer_loop ?qs ?ks ?vs nq [0..<j] (state_at Q K V d br nq 0)
      = Inr (state_at Q K V d br nq (j * bc))"
    by simp
  have nth: "\<forall>i<nq. ?qs ! i = rmat br d (\<lambda>a t. Q (i * br + a) t)"
      "\<forall>t<nk. ?ks ! t = rmat bc d (\<lambda>c u. K (t * bc + c) u) \<and> ?vs ! t = rmat bc d (\<lambda>c u. V (t * bc + c) u)"
    by simp_all
  show ?thesis
    unfolding Let_def np_zeros_like_def np_zeros_def np_full_def rmat_sel
    using loop nth
    by (simp only: qs ks vs init_blocks[OF br] state_at_0 length_map length_upt diff_zero simp_thms)
qed

lemma run_blocks_are_tile_inputs:
  "has_shape (rmat br d F) br d \<and> real_valued (rmat br d F)
   \<and> has_shape (o_block_at Q K V d br n i) br d \<and> real_valued (o_block_at Q K V d br n i)
   \<and> has_shape (l_block_at Q K d br n i) br 1 \<and> real_valued (l_block_at Q K d br n i)
   \<and> has_shape (m_block_at Q K d br n i) br 1 \<and> running_max_valued (m_block_at Q K d br n i)"
proof -
  have "running_max_valued (m_block_at Q K d br n i)"
    by (simp add: m_block_at_def running_max_valued_def tabulate2_def list_all_iff)
  then show ?thesis
    by (simp add: has_shape_def o_block_at_def l_block_at_def m_block_at_def)
qed

end
